theory Spec2Isabelle
  imports Main "HOL-Library.Word" "HOL-Library.Char_ord" "HOL-Library.List_Lexorder" "HOL-Library.AList"
begin

unbundle bit_operations_syntax

section \<open>JavaScript values, numbers and faults\<close>

text \<open>
  The development embeds \<^verbatim>\<open>src/src/datatypeconvertor.js\<close>: the class
  \<^verbatim>\<open>WeightedGraph\<close> and the class \<^verbatim>\<open>$.DataTypeConvertor\<close>.

  A call of the source has three possible endings, and the model keeps all of them apart:
  it returns a value (\<open>Some (Inr v)\<close>), it throws (\<open>Some (Inl e)\<close>), or it
  runs forever (\<open>None\<close>). Functions that cannot loop drop the outer \<open>option\<close>;
  functions that cannot throw drop the sum.

  The tables of the source (\<^verbatim>\<open>vertices\<close>, \<^verbatim>\<open>adjacencyList\<close>,
  \<^verbatim>\<open>destructors\<close>, \<^verbatim>\<open>_known\<close> and its rows) are object literals. The model
  holds the properties that the program has put into a table (an association list or a
  map from the name), and a read under any other name goes on in the prototype of the
  table, \<^verbatim>\<open>Object.prototype\<close>, as it does in JavaScript (section \<open>Object literals\<close>).
  Callbacks are functions of the value they receive; what they do to the registry itself
  is outside the model.
\<close>

text \<open>
  The faults. \<open>TypeError\<close> is the exception of the language, \<open>EmptyQueue\<close> the failure of
  the queue, \<open>Raised\<close> what a callback throws. \<open>HostDefined\<close> is no exception: it marks
  a call that goes on in an object of the host, outside the program. Such a call calls a
  function of \<^verbatim>\<open>Object.prototype\<close>, or adds a property to \<^verbatim>\<open>Object.prototype\<close>
  (every object of the page has it from then on), or looks up, in one of the host's function
  objects, a name that the caller chose. What happens then is decided by the host and by
  the other code that shares these objects; the model says nothing about it, and no
  theorem below speaks about a call with this mark.
\<close>

datatype error = TypeError | EmptyQueue | Raised string | HostDefined

text \<open>A distance: a JavaScript number that is an integer, or \<^verbatim>\<open>Infinity\<close>.\<close>

datatype num = Fin int | Infinity

fun num_add :: "num \<Rightarrow> int \<Rightarrow> num" where
  "num_add (Fin a) w = Fin (a + w)"
| "num_add Infinity w = Infinity"

fun num_less :: "num \<Rightarrow> num \<Rightarrow> bool" where
  "num_less (Fin a) (Fin b) = (a < b)"
| "num_less (Fin a) Infinity = True"
| "num_less Infinity b = False"


text \<open>
  The bitwise operators of JavaScript work on 32-bit signed integers: each operand goes
  through \<^verbatim>\<open>ToInt32\<close> first. \<^verbatim>\<open>a ^ b\<close> is exclusive or.
\<close>

definition toInt32 :: "int \<Rightarrow> int" where
  "toInt32 n = signed_take_bit 31 n"

definition js_xor :: "int \<Rightarrow> int \<Rightarrow> int" where
  "js_xor a b = toInt32 a XOR toInt32 b"

text \<open>
  The eventual state of a promise: fulfilled with a value, rejected (with a thrown fault or a
  value), or never settled. Suspension and scheduling are not modelled, only the outcome.
\<close>

datatype 'a promise = Fulfilled 'a | Rejected "error + 'a" | Pending

text \<open>
  The values that \<^verbatim>\<open>guessType\<close> and \<^verbatim>\<open>convert\<close> tell apart. \<open>JDomNode n\<close> is a
  host node whose \<^verbatim>\<open>nodeName\<close> is \<open>n\<close>. \<open>JThenable p\<close> is an object that is no
  promise but has a method \<^verbatim>\<open>then\<close>; \<open>p\<close> is how a promise that follows it settles.
  \<open>JObject g\<close> is any other object; \<open>g\<close> is \<open>Some r\<close> when the object has a function
  \<^verbatim>\<open>getType\<close>, and \<open>r\<close> is what calling it does (throw, or return a string).
\<close>

datatype jsval =
    JUndefined
  | JNull
  | JBoolean bool
  | JNumber int
  | JString string
  | JFunction
  | JArray "jsval list"
  | JDomNode string
  | JObject "(error + string) option"
  | JPromise "jsval promise"
  | JThenable "jsval promise"

fun truthy :: "jsval \<Rightarrow> bool" where
  "truthy JUndefined = False"
| "truthy JNull = False"
| "truthy (JBoolean b) = b"
| "truthy (JNumber n) = (n \<noteq> 0)"
| "truthy (JString s) = (s \<noteq> [])"
| "truthy v = True"

text \<open>
  Modelled from the spec: \<^verbatim>\<open>$.type\<close>, which is not among the sources. The spec calls its
  result the generic runtime-category tag of the value; the source compares it with
  \<^verbatim>\<open>"dom-node"\<close>, \<^verbatim>\<open>"object"\<close> and \<^verbatim>\<open>"promise"\<close>.
\<close>

fun type_of :: "jsval \<Rightarrow> string" where
  "type_of JUndefined = ''undefined''"
| "type_of JNull = ''null''"
| "type_of (JBoolean b) = ''boolean''"
| "type_of (JNumber n) = ''number''"
| "type_of (JString s) = ''string''"
| "type_of JFunction = ''function''"
| "type_of (JArray xs) = ''array''"
| "type_of (JDomNode n) = ''dom-node''"
| "type_of (JObject g) = ''object''"
| "type_of (JPromise p) = ''promise''"
| "type_of (JThenable p) = ''object''"

text \<open>
  \<^verbatim>\<open>Promise.resolve(v)\<close>: a promise is returned as it is, an object with a method
  \<^verbatim>\<open>then\<close> is followed, any other value is fulfilled.
\<close>

fun Promise_resolve :: "jsval \<Rightarrow> jsval promise" where
  "Promise_resolve (JPromise p) = p"
| "Promise_resolve (JThenable p) = p"
| "Promise_resolve v = Fulfilled v"

section \<open>guessType\<close>

text \<open>
  Reading the property \<^verbatim>\<open>nodeName\<close> of a value: only a host node has one, on any
  other value (a string among them) the read gives \<^verbatim>\<open>undefined\<close>.
\<close>

fun nodeName :: "jsval \<Rightarrow> jsval" where
  "nodeName (JDomNode n) = JString n"
| "nodeName v = JUndefined"

definition lower_char :: "char \<Rightarrow> char" where
  "lower_char c =
     (if CHR ''A'' \<le> c \<and> c \<le> CHR ''Z'' then char_of (of_char c + (32::nat)) else c)"

text \<open>Calling \<^verbatim>\<open>.toLowerCase()\<close>: a \<^verbatim>\<open>TypeError\<close> on anything but a string.\<close>

fun toLowerCase :: "jsval \<Rightarrow> error + string" where
  "toLowerCase (JString s) = Inr (map lower_char s)"
| "toLowerCase v = Inl TypeError"

fun join :: "string \<Rightarrow> string list \<Rightarrow> string" where
  "join sep [] = []"
| "join sep [x] = x"
| "join sep (x # y # ys) = x @ sep @ join sep (y # ys)"

text \<open>
  \<^verbatim>\<open>guessType(x)\<close>. \<open>guessType_items\<close> is the loop over the items of an array, with the
  list \<^verbatim>\<open>types\<close> built so far.
\<close>

text \<open>Reading \<^verbatim>\<open>x.getType\<close>: \<open>Some r\<close> when it is a function, whose call does \<open>r\<close>.\<close>

fun getType :: "jsval \<Rightarrow> (error + string) option" where
  "getType (JObject g) = g"
| "getType v = None"

fun guessType :: "jsval \<Rightarrow> error + string"
  and guessType_items :: "jsval list \<Rightarrow> string list \<Rightarrow> error + string list" where
  "guessType (JArray x) =
     (case guessType_items x [] of
        Inl e \<Rightarrow> Inl e
      | Inr types \<Rightarrow> Inr (''Array ['' @ join '','' (sort types) @ '']''))"
| "guessType x =
     (let guessType = type_of x in
      if guessType = ''dom-node'' then toLowerCase (nodeName (JString guessType))
      else if guessType = ''object'' \<and> getType x \<noteq> None then the (getType x)
      else Inr guessType)"
| "guessType_items [] types = Inr types"
| "guessType_items (item # rest) types =
     (if item = JUndefined \<or> item = JNull then guessType_items rest types
      else case guessType item of
             Inl e \<Rightarrow> Inl e
           | Inr ty \<Rightarrow>
               if ty \<in> set types then guessType_items rest types
               else guessType_items rest (types @ [ty]))"

section \<open>Object literals\<close>

text \<open>
  An object literal inherits from \<^verbatim>\<open>Object.prototype\<close>. The language gives that
  object eleven functions and the accessor \<^verbatim>\<open>__proto__\<close>, whose getter returns the
  prototype of the object it is read from. So in a table \<^verbatim>\<open>t = {}\<close> the read
  \<^verbatim>\<open>t["toString"]\<close> gives a function and \<^verbatim>\<open>t["__proto__"]\<close> gives
  \<^verbatim>\<open>Object.prototype\<close> itself, though the program has stored nothing under these
  names. None of the twelve properties is enumerable, so a \<^verbatim>\<open>for-in\<close> loop over a
  table visits only what the program has stored.
\<close>

datatype host = ObjectPrototype | PrototypeFunction string

definition prototype_functions :: "string list" where
  "prototype_functions =
     [''constructor'', ''__defineGetter__'', ''__defineSetter__'', ''hasOwnProperty'',
      ''__lookupGetter__'', ''__lookupSetter__'', ''isPrototypeOf'', ''propertyIsEnumerable'',
      ''toString'', ''valueOf'', ''toLocaleString'']"

text \<open>What an object literal inherits under the name \<open>k\<close>, \<open>None\<close> when it inherits nothing.\<close>

definition inherited :: "string \<Rightarrow> host option" where
  "inherited k =
     (if k = ''__proto__'' then Some ObjectPrototype
      else if k \<in> set prototype_functions then Some (PrototypeFunction k)
      else None)"

text \<open>
  The result of the read \<^verbatim>\<open>t[k]\<close> in a table whose own properties are \<open>own\<close>: the
  value stored, or else the inherited object, or else \<^verbatim>\<open>undefined\<close>.
\<close>

datatype 'a slot = Value 'a | Inherited host | Undefined

definition get :: "(string \<rightharpoonup> 'a) \<Rightarrow> string \<Rightarrow> 'a slot" where
  "get own k =
     (case own k of
        Some v \<Rightarrow> Value v
      | None \<Rightarrow> (case inherited k of Some h \<Rightarrow> Inherited h | None \<Rightarrow> Undefined))"

section \<open>WeightedGraph\<close>

text \<open>
  The graph's \<^verbatim>\<open>PriorityQueue.Node\<close> objects are shared: the vertex table and every
  edge hold references to them, and a search writes their \<^verbatim>\<open>key\<close> and
  \<^verbatim>\<open>_previous\<close> fields. So the nodes live in a store (a list, the address of a node
  is its position) and the table and the edges hold addresses. The \<^verbatim>\<open>target\<close> and the
  \<^verbatim>\<open>origin\<close> of an edge are what \<^verbatim>\<open>this.vertices[...]\<close> gave when the edge was
  made: a node, an object inherited from \<^verbatim>\<open>Object.prototype\<close>, or \<^verbatim>\<open>undefined\<close>.
\<close>

type_synonym addr = nat

record PriorityNode =
  key :: num
  node_value :: string
  previous :: "addr option"

record 't edge =
  target :: "addr slot"
  origin :: "addr slot"
  weight :: int
  transform :: 't

record 't WeightedGraph =
  store :: "PriorityNode list"
  vertices :: "(string \<times> addr) list"
  adjacencyList :: "(string \<times> 't edge list) list"

definition new_WeightedGraph :: "'t WeightedGraph" where
  "new_WeightedGraph = \<lparr>store = [], vertices = [], adjacencyList = []\<rparr>"

text \<open>
  \<^verbatim>\<open>addVertex\<close> registers the vertex when \<^verbatim>\<open>this.vertices[vertex]\<close> is falsy. A
  node and an inherited object are both truthy, so a name of \<^verbatim>\<open>Object.prototype\<close> is
  never registered.
\<close>

definition addVertex :: "'t WeightedGraph \<Rightarrow> string \<Rightarrow> 't WeightedGraph \<times> bool" where
  "addVertex g vertex =
     (case get (map_of (vertices g)) vertex of
        Undefined \<Rightarrow>
          (g\<lparr>store := store g @ [\<lparr>key = Fin 0, node_value = vertex, previous = None\<rparr>],
             vertices := AList.update vertex (length (store g)) (vertices g),
             adjacencyList := AList.update vertex [] (adjacencyList g)\<rparr>, True)
      | Value a \<Rightarrow> (g, False)
      | Inherited h \<Rightarrow> (g, False))"

text \<open>
  \<^verbatim>\<open>addEdge\<close> calls \<^verbatim>\<open>this.adjacencyList[vertex1].push\<close>. That throws a
  \<^verbatim>\<open>TypeError\<close> when the table gives \<^verbatim>\<open>undefined\<close>, and also when it gives an
  inherited object: neither \<^verbatim>\<open>Object.prototype\<close> nor a function has a property
  \<^verbatim>\<open>push\<close>, and calling \<^verbatim>\<open>undefined\<close> throws.
\<close>

definition addEdge ::
  "'t WeightedGraph \<Rightarrow> string \<Rightarrow> string \<Rightarrow> int \<Rightarrow> 't \<Rightarrow> error + 't WeightedGraph" where
  "addEdge g vertex1 vertex2 w t =
     (case get (map_of (adjacencyList g)) vertex1 of
        Value es \<Rightarrow>
          Inr (g\<lparr>adjacencyList :=
                  AList.update vertex1
                    (es @ [\<lparr>target = get (map_of (vertices g)) vertex2,
                             origin = get (map_of (vertices g)) vertex1,
                             weight = w, transform = t\<rparr>])
                    (adjacencyList g)\<rparr>)
      | Inherited h \<Rightarrow> Inl TypeError
      | Undefined \<Rightarrow> Inl TypeError)"

subsection \<open>The priority queue\<close>

text \<open>
  Modelled from the spec: \<^verbatim>\<open>OpenSeadragon.PriorityQueue\<close>, which is not among the
  sources. The spec gives its contract: \<^verbatim>\<open>insert\<close> adds a node, extract-min returns a
  node with the smallest key and fails on an empty queue, decrease-key lowers the key of a
  node that is in the queue and, for a node reached the first time, inserts it. The queue
  is the list of the addresses it holds; of several nodes with the smallest key the one
  inserted first is returned (the spec leaves that choice open). The heap position that
  the real queue records in a node is not kept in the store: a node has one exactly when
  it is in the list, and the fresh queue of a search holds none, which is what
  \<^verbatim>\<open>delete vertex.index\<close> provides for.
\<close>

definition insertNode :: "addr list \<Rightarrow> addr \<Rightarrow> addr list" where
  "insertNode nodes a = nodes @ [a]"

definition getCount :: "addr list \<Rightarrow> nat" where
  "getCount nodes = length nodes"

fun smallest :: "PriorityNode list \<Rightarrow> addr \<Rightarrow> addr list \<Rightarrow> addr" where
  "smallest st a [] = a"
| "smallest st a (b # bs) =
     (if num_less (key (st ! b)) (key (st ! a)) then smallest st b bs else smallest st a bs)"

definition remove :: "PriorityNode list \<Rightarrow> addr list \<Rightarrow> error + addr \<times> addr list" where
  "remove st nodes =
     (case nodes of
        [] \<Rightarrow> Inl EmptyQueue
      | a # as \<Rightarrow> (let m = smallest st a as in Inr (m, remove1 m nodes)))"

definition decreaseKey ::
  "PriorityNode list \<times> addr list \<Rightarrow> addr \<Rightarrow> num \<Rightarrow> PriorityNode list \<times> addr list" where
  "decreaseKey s a k =
     (case s of (st, nodes) \<Rightarrow>
        (st[a := (st ! a)\<lparr>key := k\<rparr>], if a \<in> set nodes then nodes else insertNode nodes a))"

subsection \<open>dijkstra\<close>

text \<open>
  The first loop of \<^verbatim>\<open>dijkstra\<close>, over the vertex table: the start vertex gets key 0 and
  enters the queue, every other vertex gets key \<^verbatim>\<open>Infinity\<close>, and every
  \<^verbatim>\<open>_previous\<close> is cleared. The loop visits the vertices that the program has
  registered; the order of the visits does not matter to its result as long as one vertex
  at most carries the start identifier.
\<close>

fun reset ::
  "string \<Rightarrow> (string \<times> addr) list \<Rightarrow> PriorityNode list \<times> addr list \<Rightarrow> PriorityNode list \<times> addr list" where
  "reset start [] (st, nodes) = (st, nodes)"
| "reset start ((name, vertex) # vs) (st, nodes) =
     (if node_value (st ! vertex) = start
      then reset start vs
             (st[vertex := (st ! vertex)\<lparr>key := Fin 0, previous := None\<rparr>], insertNode nodes vertex)
      else reset start vs
             (st[vertex := (st ! vertex)\<lparr>key := Infinity, previous := None\<rparr>], nodes))"

text \<open>
  The inner loop over the edges that leave the node just taken from the queue. Reading
  \<^verbatim>\<open>edge.target.key\<close> throws when the edge has no target. When the target is an
  inherited object, its \<^verbatim>\<open>key\<close> is \<^verbatim>\<open>undefined\<close>, the comparison
  \<^verbatim>\<open>newCost < undefined\<close> is false, and the edge is passed over.
\<close>

fun relax ::
  "'t edge list \<Rightarrow> addr \<Rightarrow> PriorityNode list \<times> addr list \<Rightarrow> error + PriorityNode list \<times> addr list" where
  "relax [] smallestNode (st, nodes) = Inr (st, nodes)"
| "relax (edge # neighbors) smallestNode (st, nodes) =
     (let newCost = num_add (key (st ! smallestNode)) (weight edge) in
      case target edge of
        Undefined \<Rightarrow> Inl TypeError
      | Inherited h \<Rightarrow> relax neighbors smallestNode (st, nodes)
      | Value nextNeighbor \<Rightarrow>
          if num_less newCost (key (st ! nextNeighbor))
          then relax neighbors smallestNode
                 (decreaseKey
                    (st[nextNeighbor := (st ! nextNeighbor)\<lparr>previous := Some smallestNode\<rparr>], nodes)
                    nextNeighbor newCost)
          else relax neighbors smallestNode (st, nodes))"

text \<open>
  \<^verbatim>\<open>for (k in neighbors)\<close> runs no iteration when \<^verbatim>\<open>neighbors\<close> is undefined, and
  none when it is an inherited object, which has no enumerable property.
\<close>

definition neighbors_of :: "(string \<times> 't edge list) list \<Rightarrow> string \<Rightarrow> 't edge list" where
  "neighbors_of adjacency v =
     (case get (map_of adjacency) v of Value es \<Rightarrow> es | Inherited h \<Rightarrow> [] | Undefined \<Rightarrow> [])"

text \<open>
  The main loop, \<^verbatim>\<open>while (nodes.getCount() > 0)\<close>, given \<^verbatim>\<open>this.adjacencyList\<close>. It
  returns the store and the last node taken from the queue (\<^verbatim>\<open>smallestNode\<close>, \<open>None\<close>
  while undefined).
  With an edge of negative weight on a cycle the loop of the source does not end; the
  model then has the value \<open>None\<close>.
\<close>

partial_function (option) search ::
  "(string \<times> 't edge list) list \<Rightarrow> string option \<Rightarrow> PriorityNode list \<Rightarrow> addr list \<Rightarrow> addr option
     \<Rightarrow> (error + PriorityNode list \<times> addr option) option" where
  "search adjacency finish st nodes smallestNode =
     (if getCount nodes > 0 then
        (case remove st nodes of
           Inl e \<Rightarrow> Some (Inl e)
         | Inr (m, nodes') \<Rightarrow>
             if Some (node_value (st ! m)) = finish then Some (Inr (st, Some m))
             else (case relax (neighbors_of adjacency (node_value (st ! m))) m (st, nodes') of
                     Inl e \<Rightarrow> Some (Inl e)
                   | Inr (st', nodes'') \<Rightarrow> search adjacency finish st' nodes'' (Some m)))
      else Some (Inr (st, smallestNode)))"

declare search.simps [code]

text \<open>
  \<^verbatim>\<open>adjacencyList[from].find(x => x.target.value === to)\<close>: the first edge whose
  target carries the identifier, \<open>None\<close> (undefined) when there is none. An inherited
  object has no \<^verbatim>\<open>value\<close>, so an edge to one is never the edge found.
\<close>

fun find_edge :: "PriorityNode list \<Rightarrow> string \<Rightarrow> 't edge list \<Rightarrow> error + 't edge option" where
  "find_edge st to [] = Inr None"
| "find_edge st to (x # xs) =
     (case target x of
        Undefined \<Rightarrow> Inl TypeError
      | Inherited h \<Rightarrow> find_edge st to xs
      | Value t \<Rightarrow> if node_value (st ! t) = to then Inr (Some x) else find_edge st to xs)"

text \<open>
  The last loop, \<^verbatim>\<open>while (smallestNode._previous)\<close>, pushes one edge per step back
  towards the start. It does not end when the \<^verbatim>\<open>_previous\<close> links form a cycle. The
  call of \<^verbatim>\<open>find\<close> throws when \<^verbatim>\<open>adjacencyList[from]\<close> is no array.
\<close>

partial_function (option) backtrack ::
  "(string \<times> 't edge list) list \<Rightarrow> PriorityNode list \<Rightarrow> addr \<Rightarrow> 't edge option list
     \<Rightarrow> (error + 't edge option list) option" where
  "backtrack adjacency st smallestNode path =
     (case previous (st ! smallestNode) of
        None \<Rightarrow> Some (Inr path)
      | Some parent \<Rightarrow>
          (case get (map_of adjacency) (node_value (st ! parent)) of
             Undefined \<Rightarrow> Some (Inl TypeError)
           | Inherited h \<Rightarrow> Some (Inl TypeError)
           | Value es \<Rightarrow>
               (case find_edge st (node_value (st ! smallestNode)) es of
                  Inl e \<Rightarrow> Some (Inl e)
                | Inr x \<Rightarrow> backtrack adjacency st parent (path @ [x]))))"

declare backtrack.simps [code]

text \<open>The result object \<^verbatim>\<open>{path, cost}\<close> of a search.\<close>

record 't conversion =
  path :: "'t edge option list"
  cost :: num

text \<open>
  \<^verbatim>\<open>dijkstra(start, finish)\<close>. \<open>finish\<close> is \<open>None\<close> when the caller passes
  \<^verbatim>\<open>undefined\<close>. The result is \<open>None\<close> for \<^verbatim>\<open>undefined\<close> (no path), and it comes with
  the graph, whose nodes the search has written.
\<close>

definition dijkstra ::
  "'t WeightedGraph \<Rightarrow> string \<Rightarrow> string option
     \<Rightarrow> (error + 't conversion option \<times> 't WeightedGraph) option" where
  "dijkstra g start finish =
     (if Some start = finish then Some (Inr (Some \<lparr>path = [], cost = Fin 0\<rparr>, g))
      else
        case reset start (vertices g) (store g, []) of
          (st0, nodes) \<Rightarrow>
            (case search (adjacencyList g) finish st0 nodes None of
               None \<Rightarrow> None
             | Some (Inl e) \<Rightarrow> Some (Inl e)
             | Some (Inr (st, smallestNode)) \<Rightarrow>
                 (case smallestNode of
                    None \<Rightarrow> Some (Inr (None, g\<lparr>store := st\<rparr>))
                  | Some m \<Rightarrow>
                      if previous (st ! m) = None then Some (Inr (None, g\<lparr>store := st\<rparr>))
                      else
                        (case backtrack (adjacencyList g) st m [] of
                           None \<Rightarrow> None
                         | Some (Inl e) \<Rightarrow> Some (Inl e)
                         | Some (Inr p) \<Rightarrow>
                             Some (Inr (Some \<lparr>path = rev p, cost = key (st ! m)\<rparr>,
                                        g\<lparr>store := st\<rparr>))))))"

section \<open>DataTypeConvertor\<close>

type_synonym transform = "jsval \<Rightarrow> error + jsval"

type_synonym destructor = "jsval \<Rightarrow> error + unit"

text \<open>
  A row of the cache holds, under the name of a destination, what a search has found: a
  conversion or \<^verbatim>\<open>undefined\<close> (\<open>None\<close>).

  An assignment \<^verbatim>\<open>t["__proto__"] = v\<close> stores no property: it calls the setter of
  \<^verbatim>\<open>Object.prototype\<close>, which makes \<open>v\<close> the prototype of \<open>t\<close> when \<open>v\<close> is an object
  and does nothing when \<open>v\<close> is \<^verbatim>\<open>undefined\<close>; the getter returns that prototype. The
  model keeps a prototype that the program has set in this way as the entry of the table
  under \<^verbatim>\<open>__proto__\<close>. Only \<^verbatim>\<open>destructors\<close> and the rows of the cache are written under
  a name that the caller chooses without a test of what is there.

  \<open>function_rows\<close> holds the properties that the program has put on the functions of
  \<^verbatim>\<open>Object.prototype\<close>: for an origin type such as \<^verbatim>\<open>toString\<close> the read
  \<^verbatim>\<open>this._known[from]\<close> gives that function, and \<^verbatim>\<open>getConversionPath\<close> uses it as
  the row. These objects belong to the host and not to the registry, so \<^verbatim>\<open>learn\<close>
  does not clear them.
\<close>

type_synonym 't row = "string \<rightharpoonup> 't conversion option"

record DataTypeConvertor =
  graph :: "transform WeightedGraph"
  destructors :: "string \<rightharpoonup> destructor"
  known :: "string \<rightharpoonup> transform row"
  function_rows :: "string \<rightharpoonup> transform row"

text \<open>
  \<^verbatim>\<open>learn(from, to, callback, costPower, costMultiplier)\<close>, with the two defaults
  (0 and 1) written out by the caller. The two \<^verbatim>\<open>$.console.assert\<close> lines only log.
  In \<^verbatim>\<open>costPower * 10 ^ 5 + costMultiplier\<close> the operator \<^verbatim>\<open>^\<close> is exclusive or
  and binds weaker than \<^verbatim>\<open>*\<close> and \<^verbatim>\<open>+\<close>.

  The result is the fault that the call throws, if any, and the registry as the call leaves
  it. When \<^verbatim>\<open>addEdge\<close> throws, the two calls of \<^verbatim>\<open>addVertex\<close> have been made and the
  cache has not been cleared.
\<close>

definition learn ::
  "DataTypeConvertor \<Rightarrow> string \<Rightarrow> string \<Rightarrow> transform \<Rightarrow> int \<Rightarrow> int
     \<Rightarrow> error option \<times> DataTypeConvertor" where
  "learn this from to callback costPower0 costMultiplier0 =
     (let costPower = costPower0 + 1;
          costMultiplier = min (max costMultiplier0 1) (js_xor 10 5);
          g1 = fst (addVertex (graph this) from);
          g2 = fst (addVertex g1 to)
      in case addEdge g2 from to (js_xor (costPower * 10) (5 + costMultiplier)) callback of
           Inl e \<Rightarrow> (Some e, this\<lparr>graph := g2\<rparr>)
         | Inr g3 \<Rightarrow> (None, this\<lparr>graph := g3, known := Map.empty\<rparr>))"

definition learnDestroy :: "DataTypeConvertor \<Rightarrow> string \<Rightarrow> destructor \<Rightarrow> DataTypeConvertor" where
  "learnDestroy this ty callback = this\<lparr>destructors := (destructors this)(ty \<mapsto> callback)\<rparr>"

text \<open>
  The registry after a sequence of \<^verbatim>\<open>learn\<close> calls, each made on its own: a call that
  throws does not keep the caller from making the next one.
\<close>

fun learn_all ::
  "DataTypeConvertor \<Rightarrow> (string \<times> string \<times> transform \<times> int \<times> int) list \<Rightarrow> DataTypeConvertor" where
  "learn_all this [] = this"
| "learn_all this ((from, to, callback, costPower, costMultiplier) # calls) =
     learn_all (snd (learn this from to callback costPower costMultiplier)) calls"

text \<open>The faults of the same calls, in their order.\<close>

fun learn_faults ::
  "DataTypeConvertor \<Rightarrow> (string \<times> string \<times> transform \<times> int \<times> int) list \<Rightarrow> error option list" where
  "learn_faults this [] = []"
| "learn_faults this ((from, to, callback, costPower, costMultiplier) # calls) =
     fst (learn this from to callback costPower costMultiplier)
       # learn_faults (snd (learn this from to callback costPower costMultiplier)) calls"

text \<open>
  The constructor: an empty graph, no destructor, and the six built-in conversions. Their
  bodies are calls of the host platform; \<open>builtin from to\<close> stands for them. None of the
  six calls throws (lemma \<open>new_DataTypeConvertor_returns\<close>).
\<close>

definition empty_convertor :: DataTypeConvertor where
  "empty_convertor =
     \<lparr>graph = new_WeightedGraph, destructors = Map.empty, known = Map.empty, function_rows = Map.empty\<rparr>"

definition builtin_conversions ::
  "(string \<Rightarrow> string \<Rightarrow> transform) \<Rightarrow> (string \<times> string \<times> transform \<times> int \<times> int) list" where
  "builtin_conversions builtin =
     [(''canvas'', ''rasterUrl'', builtin ''canvas'' ''rasterUrl'', 1, 1),
      (''image'', ''rasterUrl'', builtin ''image'' ''rasterUrl'', 0, 1),
      (''canvas'', ''context2d'', builtin ''canvas'' ''context2d'', 0, 1),
      (''context2d'', ''canvas'', builtin ''context2d'' ''canvas'', 0, 1),
      (''image'', ''canvas'', builtin ''image'' ''canvas'', 1, 1),
      (''rasterUrl'', ''image'', builtin ''rasterUrl'' ''image'', 1, 1)]"

definition new_DataTypeConvertor :: "(string \<Rightarrow> string \<Rightarrow> transform) \<Rightarrow> DataTypeConvertor" where
  "new_DataTypeConvertor builtin = learn_all empty_convertor (builtin_conversions builtin)"

text \<open>
  What a call leaves behind besides its result: the transforms it invoked (with the index
  of the step and the value passed), the destructors it invoked, and its console messages.
\<close>

datatype event = Transformed nat jsval | Destroyed string jsval | ConsoleError | ConsoleWarn

text \<open>
  \<^verbatim>\<open>destroy(type, data)\<close> calls \<^verbatim>\<open>this.destructors[type]\<close> when that is truthy. For a
  name that the table does not hold, the read goes on in the prototype. When that is
  \<^verbatim>\<open>Object.prototype\<close>: the name \<^verbatim>\<open>__proto__\<close> gives \<^verbatim>\<open>Object.prototype\<close>, which
  is truthy and no function, so calling it throws; one of the eleven functions is called
  (\<open>HostDefined\<close>); any other name gives \<^verbatim>\<open>undefined\<close>. When the prototype is a callback
  (the entry under \<^verbatim>\<open>__proto__\<close>), the name is looked up in that function object
  (\<open>HostDefined\<close>).
\<close>

definition destroy :: "DataTypeConvertor \<Rightarrow> string \<Rightarrow> jsval \<Rightarrow> (error + unit) \<times> event list" where
  "destroy this ty data =
     (case destructors this ty of
        Some destructor \<Rightarrow> (destructor data, [Destroyed ty data])
      | None \<Rightarrow>
          (case destructors this ''__proto__'' of
             Some callback \<Rightarrow> (Inl HostDefined, [])
           | None \<Rightarrow>
               (case inherited ty of
                  None \<Rightarrow> (Inr (), [])
                | Some ObjectPrototype \<Rightarrow> (Inl TypeError, [])
                | Some (PrototypeFunction f) \<Rightarrow> (Inl HostDefined, []))))"

subsection \<open>getConversionPath\<close>

text \<open>The argument \<^verbatim>\<open>to\<close>: one type, or an array of accepted types.\<close>

datatype dest = Single string | Multi "string list"

text \<open>
  The object \<^verbatim>\<open>knownFrom\<close>, that is \<^verbatim>\<open>this._known[from]\<close> after the first three
  lines of \<^verbatim>\<open>getConversionPath\<close>: \<open>None\<close> stands for a row of the registry (the one
  stored under \<open>from\<close>, or the fresh one that the third line stores when the read gave
  \<^verbatim>\<open>undefined\<close>), \<open>Some h\<close> for the inherited object that the read gives under a name
  of \<^verbatim>\<open>Object.prototype\<close>. \<open>entries\<close> are the properties that the program has put on
  that object.
\<close>

definition holder :: "DataTypeConvertor \<Rightarrow> string \<Rightarrow> host option" where
  "holder this from = (case known this from of Some r \<Rightarrow> None | None \<Rightarrow> inherited from)"

definition entries :: "DataTypeConvertor \<Rightarrow> string \<Rightarrow> transform row" where
  "entries this from =
     (case holder this from of
        None \<Rightarrow> (case known this from of Some r \<Rightarrow> r | None \<Rightarrow> Map.empty)
      | Some ObjectPrototype \<Rightarrow> Map.empty
      | Some (PrototypeFunction f) \<Rightarrow> (case function_rows this f of Some r \<Rightarrow> r | None \<Rightarrow> Map.empty))"

text \<open>
  What the source can tell about the value of \<^verbatim>\<open>knownFrom[outType]\<close>: a conversion
  (an object with a \<^verbatim>\<open>path\<close> and a \<^verbatim>\<open>cost\<close>), another truthy value, or a falsy one.
  The other truthy values are inherited objects, and the path array and the non-zero cost
  of a conversion that has become the prototype of the row. None of them has a property
  \<^verbatim>\<open>cost\<close> or \<^verbatim>\<open>path\<close>.
\<close>

datatype 't cell = Conversion "'t conversion" | Truthy | Falsy

text \<open>
  The read \<^verbatim>\<open>knownFrom[k]\<close>. An own property comes first. Otherwise the read goes on
  in the prototype. For a row of the registry that is \<^verbatim>\<open>Object.prototype\<close> or, once
  replaced, a conversion, which inherits from \<^verbatim>\<open>Object.prototype\<close> in turn. A function
  of \<^verbatim>\<open>Object.prototype\<close> has properties of its own that the host defines
  (\<open>HostDefined\<close>), but under the twelve names it inherits from \<^verbatim>\<open>Function.prototype\<close>
  and \<^verbatim>\<open>Object.prototype\<close> a function or, for \<^verbatim>\<open>__proto__\<close>, its prototype. The
  prototype of \<^verbatim>\<open>Object.prototype\<close> itself is \<^verbatim>\<open>null\<close>.
\<close>

definition read :: "host option \<Rightarrow> 't row \<Rightarrow> string \<Rightarrow> error + 't cell" where
  "read knownFrom own k =
     (case own k of
        Some (Some c) \<Rightarrow> Inr (Conversion c)
      | Some None \<Rightarrow> Inr Falsy
      | None \<Rightarrow>
          (case knownFrom of
             None \<Rightarrow>
               (case own ''__proto__'' of
                  Some (Some c) \<Rightarrow>
                    if k = ''path'' then Inr Truthy
                    else if k = ''cost'' then Inr (if cost c = Fin 0 then Falsy else Truthy)
                    else Inr (if inherited k = None then Falsy else Truthy)
                | Some None \<Rightarrow> Inr (if inherited k = None then Falsy else Truthy)
                | None \<Rightarrow> Inr (if inherited k = None then Falsy else Truthy))
           | Some ObjectPrototype \<Rightarrow> Inr (if k \<in> set prototype_functions then Truthy else Falsy)
           | Some (PrototypeFunction f) \<Rightarrow>
               if inherited k = None then Inl HostDefined else Inr Truthy))"

text \<open>
  The assignment \<^verbatim>\<open>knownFrom[k] = v\<close>, giving the own properties afterwards. Under
  \<^verbatim>\<open>__proto__\<close> it is the call of the setter: nothing happens for \<^verbatim>\<open>undefined\<close>; a
  conversion becomes the prototype of a row; \<^verbatim>\<open>Object.prototype\<close> refuses a new
  prototype with a \<^verbatim>\<open>TypeError\<close>; a function of the host would lose what it inherits
  (\<open>HostDefined\<close>). Under another name the assignment stores an own property; that is a new
  property of every object when \<^verbatim>\<open>knownFrom\<close> is \<^verbatim>\<open>Object.prototype\<close>
  (\<open>HostDefined\<close>).
\<close>

definition assign :: "host option \<Rightarrow> 't row \<Rightarrow> string \<Rightarrow> 't conversion option \<Rightarrow> error + 't row" where
  "assign knownFrom own k v =
     (if k = ''__proto__'' then
        (case v of
           None \<Rightarrow> Inr own
         | Some c \<Rightarrow>
             (case knownFrom of
                None \<Rightarrow> Inr (own(k \<mapsto> v))
              | Some ObjectPrototype \<Rightarrow> Inl TypeError
              | Some (PrototypeFunction f) \<Rightarrow> Inl HostDefined))
      else
        (case knownFrom of
           None \<Rightarrow> Inr (own(k \<mapsto> v))
         | Some ObjectPrototype \<Rightarrow> Inl HostDefined
         | Some (PrototypeFunction f) \<Rightarrow>
             if own k = None \<and> inherited k = None then Inl HostDefined else Inr (own(k \<mapsto> v))))"

text \<open>The registry with the properties \<open>r\<close> on the object that \<^verbatim>\<open>this._known[from]\<close> is.\<close>

definition put :: "DataTypeConvertor \<Rightarrow> string \<Rightarrow> transform row \<Rightarrow> DataTypeConvertor" where
  "put this from r =
     (case holder this from of
        None \<Rightarrow> this\<lparr>known := (known this)(from \<mapsto> r)\<rparr>
      | Some ObjectPrototype \<Rightarrow> this
      | Some (PrototypeFunction f) \<Rightarrow> this\<lparr>function_rows := (function_rows this)(f \<mapsto> r)\<rparr>)"

text \<open>The property name that a key evaluates to; \<^verbatim>\<open>undefined\<close> becomes its name.\<close>

definition property_key :: "string option \<Rightarrow> string" where
  "property_key k = (case k of None \<Rightarrow> ''undefined'' | Some s \<Rightarrow> s)"

text \<open>
  The loop \<^verbatim>\<open>for (const outType of to)\<close>, on the state
  (\<^verbatim>\<open>bestConvertorPath\<close>, \<^verbatim>\<open>bestCost\<close>, \<^verbatim>\<open>selectedType\<close>). The test
  \<^verbatim>\<open>conversion && bestCost > conversion.cost\<close> fails for a falsy value and for a truthy
  value without a cost.
\<close>

fun best_known ::
  "host option \<Rightarrow> 't row \<Rightarrow> string list
     \<Rightarrow> 't conversion option \<times> num \<times> string option
     \<Rightarrow> error + 't conversion option \<times> num \<times> string option" where
  "best_known knownFrom own [] s = Inr s"
| "best_known knownFrom own (outType # rest) (bestConvertorPath, bestCost, selectedType) =
     (case read knownFrom own outType of
        Inl e \<Rightarrow> Inl e
      | Inr (Conversion conversion) \<Rightarrow>
          if num_less (cost conversion) bestCost
          then best_known knownFrom own rest (Some conversion, cost conversion, Some outType)
          else best_known knownFrom own rest (bestConvertorPath, bestCost, selectedType)
      | Inr Truthy \<Rightarrow> best_known knownFrom own rest (bestConvertorPath, bestCost, selectedType)
      | Inr Falsy \<Rightarrow> best_known knownFrom own rest (bestConvertorPath, bestCost, selectedType))"

text \<open>
  The value of \<^verbatim>\<open>bestConvertorPath\<close> and of \<^verbatim>\<open>selectedType\<close> before the test
  \<^verbatim>\<open>if (!bestConvertorPath)\<close>.
\<close>

definition chosen ::
  "host option \<Rightarrow> 't row \<Rightarrow> dest \<Rightarrow> error + 't cell \<times> string option" where
  "chosen knownFrom own to =
     (case to of
        Multi tos \<Rightarrow>
          (case best_known knownFrom own tos
                  (None, Infinity, (case tos of [] \<Rightarrow> None | t # ts \<Rightarrow> Some t)) of
             Inl e \<Rightarrow> Inl e
           | Inr (None, bestCost, selectedType) \<Rightarrow> Inr (Falsy, selectedType)
           | Inr (Some bestConvertorPath, bestCost, selectedType) \<Rightarrow>
               Inr (Conversion bestConvertorPath, selectedType))
      | Single t \<Rightarrow>
          (case read knownFrom own t of
             Inl e \<Rightarrow> Inl e
           | Inr bestConvertorPath \<Rightarrow> Inr (bestConvertorPath, Some t)))"

text \<open>
  The first lines of \<^verbatim>\<open>getConversionPath\<close>: when \<^verbatim>\<open>this._known[from]\<close> is falsy,
  a fresh row is stored under \<open>from\<close>. A row and an inherited object are truthy.
\<close>

definition known_row :: "DataTypeConvertor \<Rightarrow> string \<Rightarrow> DataTypeConvertor" where
  "known_row this from =
     (case get (known this) from of
        Undefined \<Rightarrow> this\<lparr>known := (known this)(from \<mapsto> Map.empty)\<rparr>
      | Value r \<Rightarrow> this
      | Inherited h \<Rightarrow> this)"

text \<open>
  \<^verbatim>\<open>getConversionPath(from, to)\<close> returns the path (\<open>None\<close> for \<^verbatim>\<open>undefined\<close>), the
  registry as the call leaves it, and the list of the searches it ran: one pair
  (start, finish) per call of \<^verbatim>\<open>dijkstra\<close>. A truthy value that is no conversion ends
  the call without a search, and its \<^verbatim>\<open>path\<close> is \<^verbatim>\<open>undefined\<close>.
\<close>

definition getConversionPath ::
  "DataTypeConvertor \<Rightarrow> string \<Rightarrow> dest
     \<Rightarrow> (error + transform edge option list option \<times> DataTypeConvertor \<times> (string \<times> string option) list) option" where
  "getConversionPath this from to =
     (let this1 = known_row this from;
          knownFrom = holder this1 from
      in case chosen knownFrom (entries this1 from) to of
           Inl e \<Rightarrow> Some (Inl e)
         | Inr (Conversion bestConvertorPath, selectedType) \<Rightarrow>
             Some (Inr (Some (path bestConvertorPath), this1, []))
         | Inr (Truthy, selectedType) \<Rightarrow> Some (Inr (None, this1, []))
         | Inr (Falsy, selectedType) \<Rightarrow>
             (case dijkstra (graph this1) from selectedType of
                None \<Rightarrow> None
              | Some (Inl e) \<Rightarrow> Some (Inl e)
              | Some (Inr (bestConvertorPath, g)) \<Rightarrow>
                  (case assign knownFrom (entries this1 from) (property_key selectedType)
                          bestConvertorPath of
                     Inl e \<Rightarrow> Some (Inl e)
                   | Inr r \<Rightarrow>
                       Some (Inr (map_option path bestConvertorPath,
                                  put (this1\<lparr>graph := g\<rparr>) from r,
                                  [(from, selectedType)])))))"

subsection \<open>convert\<close>

text \<open>
  Reading \<^verbatim>\<open>.value\<close> from what an edge refers to: the identifier of a node,
  \<^verbatim>\<open>undefined\<close> for an inherited object, a \<^verbatim>\<open>TypeError\<close> for \<^verbatim>\<open>undefined\<close>.
\<close>

definition value_of :: "PriorityNode list \<Rightarrow> addr slot \<Rightarrow> error + string option" where
  "value_of st r =
     (case r of
        Value a \<Rightarrow> Inr (Some (node_value (st ! a)))
      | Inherited h \<Rightarrow> Inr None
      | Undefined \<Rightarrow> Inl TypeError)"

text \<open>
  The closure \<^verbatim>\<open>step(x, i)\<close> of \<^verbatim>\<open>convert\<close>. Its result is what the call does (throw,
  or return a promise, given by its eventual state) and the events in their order. A throw
  inside the callback of \<^verbatim>\<open>then\<close> rejects the promise that \<^verbatim>\<open>then\<close> returned.
  In \<^verbatim>\<open>$.type(y) === "promise" ? y : $.Promise.resolve(y)\<close> both branches give what
  \<^verbatim>\<open>Promise.resolve(y)\<close> gives, which returns a promise as it is.
\<close>

function step ::
  "DataTypeConvertor \<Rightarrow> transform edge option list \<Rightarrow> jsval \<Rightarrow> nat \<Rightarrow> (error + jsval promise) \<times> event list" where
  "step this conversionPath x i =
     (if i \<ge> length conversionPath then (Inr (Promise_resolve x), [])
      else
        case conversionPath ! i of
          None \<Rightarrow> (Inl TypeError, [])
        | Some edge \<Rightarrow>
            (case transform edge x of
               Inl e \<Rightarrow> (Inl e, [Transformed i x])
             | Inr y \<Rightarrow>
                 if \<not> truthy y then (Inr (Fulfilled JUndefined), [Transformed i x, ConsoleWarn])
                 else
                   (case value_of (store (graph this)) (origin edge) of
                      Inl e \<Rightarrow> (Inl e, [Transformed i x])
                    | Inr ty \<Rightarrow>
                        (case destroy this (property_key ty) x of
                           (Inl e, d) \<Rightarrow> (Inl e, Transformed i x # d)
                         | (Inr u, d) \<Rightarrow>
                             (case Promise_resolve y of
                                Fulfilled res \<Rightarrow>
                                  (case step this conversionPath res (i + 1) of
                                     (Inl e, l) \<Rightarrow> (Inr (Rejected (Inl e)), Transformed i x # d @ l)
                                   | (Inr p, l) \<Rightarrow> (Inr p, Transformed i x # d @ l))
                              | Rejected r \<Rightarrow> (Inr (Rejected r), Transformed i x # d)
                              | Pending \<Rightarrow> (Inr Pending, Transformed i x # d))))))"
  by pat_completeness auto
termination
  by (relation "measure (\<lambda>(this, conversionPath, x, i). length conversionPath - i)") auto

declare step.simps [simp del]

text \<open>
  \<^verbatim>\<open>convert(x, from, ...to)\<close>: the rest parameter makes \<^verbatim>\<open>to\<close> an array. The outer
  \<open>Inl\<close> is a throw of \<^verbatim>\<open>getConversionPath\<close>; otherwise the result is that of
  \<^verbatim>\<open>step(x, 0)\<close>, or the fulfilled empty promise with a console error when no path was
  found.
\<close>

definition convert ::
  "DataTypeConvertor \<Rightarrow> jsval \<Rightarrow> string \<Rightarrow> string list
     \<Rightarrow> (error + (error + jsval promise) \<times> event list \<times> DataTypeConvertor) option" where
  "convert this x from to =
     (case getConversionPath this from (Multi to) of
        None \<Rightarrow> None
      | Some (Inl e) \<Rightarrow> Some (Inl e)
      | Some (Inr (conversionPath, this', searched)) \<Rightarrow>
          (case conversionPath of
             None \<Rightarrow> Some (Inr (Inr (Fulfilled JUndefined), [ConsoleError], this'))
           | Some p \<Rightarrow> (case step this' p x 0 of (r, log) \<Rightarrow> Some (Inr (r, log, this')))))"

section \<open>Invariants\<close>

text \<open>
  The shape of a graph that \<^verbatim>\<open>learn\<close> builds. The vertex table lists distinct
  identifiers, the i-th of them with the address i, and none of them is a name of
  \<^verbatim>\<open>Object.prototype\<close>; the node at address i carries that identifier; the adjacency
  table has the same keys in the same order; and every edge of the list under the key \<open>k\<close>
  has as origin what the vertex table gives for \<open>k\<close> and as target a node of the store or
  an inherited object.
\<close>

definition graph_ok :: "'t WeightedGraph \<Rightarrow> bool" where
  "graph_ok g \<longleftrightarrow>
     distinct (map fst (vertices g)) \<and>
     map snd (vertices g) = [0..<length (store g)] \<and>
     map node_value (store g) = map fst (vertices g) \<and>
     map fst (adjacencyList g) = map fst (vertices g) \<and>
     (\<forall>k \<in> set (map fst (vertices g)). inherited k = None) \<and>
     (\<forall>(k, es) \<in> set (adjacencyList g). \<forall>e \<in> set es.
        origin e = get (map_of (vertices g)) k \<and>
        (case target e of Value b \<Rightarrow> b < length (store g) | Inherited h \<Rightarrow> True | Undefined \<Rightarrow> False))"

text \<open>Every edge leads to a node.\<close>

definition node_targets :: "'t WeightedGraph \<Rightarrow> bool" where
  "node_targets g \<longleftrightarrow> (\<forall>(k, es) \<in> set (adjacencyList g). \<forall>e \<in> set es. \<exists>b. target e = Value b)"

text \<open>Every edge has a weight that is not negative.\<close>

definition nonneg_weights :: "'t WeightedGraph \<Rightarrow> bool" where
  "nonneg_weights g \<longleftrightarrow> (\<forall>(k, es) \<in> set (adjacencyList g). \<forall>e \<in> set es. 0 \<le> weight e)"





text \<open>
  The registries that the program can build: the one inside the constructor before the
  built-in conversions are learnt, and every registry that a call of \<^verbatim>\<open>learn\<close> (whether
  it throws or not), of \<^verbatim>\<open>learnDestroy\<close>, of \<^verbatim>\<open>getConversionPath\<close> or of
  \<^verbatim>\<open>convert\<close> leaves behind when it returns.
\<close>

inductive registry :: "DataTypeConvertor \<Rightarrow> bool" where
  registry_empty: "registry empty_convertor"
| registry_learn: "registry this \<Longrightarrow> registry (snd (learn this from to callback costPower costMultiplier))"
| registry_learnDestroy: "registry this \<Longrightarrow> registry (learnDestroy this ty callback)"
| registry_getConversionPath:
    "registry this \<Longrightarrow> getConversionPath this from to = Some (Inr (p, this', s)) \<Longrightarrow> registry this'"
| registry_convert:
    "registry this \<Longrightarrow> convert this x from tos = Some (Inr (r, log, this')) \<Longrightarrow> registry this'"

section \<open>Observations\<close>

text \<open>The registry after a sequence of \<^verbatim>\<open>learn\<close> calls on an empty one.\<close>

definition after_learning ::
  "(string \<times> string \<times> transform \<times> int \<times> int) list \<Rightarrow> DataTypeConvertor" where
  "after_learning calls = learn_all empty_convertor calls"

text \<open>
  For each element of a path, \<^verbatim>\<open>origin.value\<close> and \<^verbatim>\<open>target.value\<close> (\<open>None\<close> where
  the element or the value is undefined).
\<close>

definition name_of :: "PriorityNode list \<Rightarrow> addr slot \<Rightarrow> string option" where
  "name_of st r = (case r of Value a \<Rightarrow> Some (node_value (st ! a)) | Inherited h \<Rightarrow> None | Undefined \<Rightarrow> None)"

definition endpoints ::
  "'t WeightedGraph \<Rightarrow> 't edge option list \<Rightarrow> (string option \<times> string option) list" where
  "endpoints g p =
     map (\<lambda>e. case e of
                None \<Rightarrow> (None, None)
              | Some e \<Rightarrow> (name_of (store g) (origin e), name_of (store g) (target e))) p"

text \<open>The weights of all edges of the graph, in the order of the adjacency lists.\<close>

definition weights_of :: "DataTypeConvertor \<Rightarrow> int list" where
  "weights_of this = concat (map (\<lambda>(v, es). map weight es) (adjacencyList (graph this)))"

text \<open>
  The conversion that the cache answers with for a pair: what \<^verbatim>\<open>this._known[from][to]\<close>
  gives when that is a conversion, \<open>None\<close> otherwise.
\<close>

definition cached :: "DataTypeConvertor \<Rightarrow> string \<Rightarrow> string \<Rightarrow> transform conversion option" where
  "cached this from to =
     (case read (holder this from) (entries this from) to of
        Inr (Conversion c) \<Rightarrow> Some c
      | Inr Truthy \<Rightarrow> None
      | Inr Falsy \<Rightarrow> None
      | Inl e \<Rightarrow> None)"

text \<open>
  The values that \<^verbatim>\<open>Promise.resolve\<close> does not fulfil as they are: a promise, and an
  object with a method \<^verbatim>\<open>then\<close>.
\<close>

fun followed :: "jsval \<Rightarrow> bool" where
  "followed (JPromise p) = True"
| "followed (JThenable p) = True"
| "followed v = False"

text \<open>
  A registry with the chain of conversions from A to B to C to D, whose second transform
  yields \<^verbatim>\<open>null\<close>, and with a destructor for A.
\<close>

definition three_steps :: DataTypeConvertor where
  "three_steps =
     learnDestroy
       (after_learning
          [(''A'', ''B'', (\<lambda>v. Inr (JString ''b'')), 0, 1),
           (''B'', ''C'', (\<lambda>v. Inr JNull), 0, 1),
           (''C'', ''D'', (\<lambda>v. Inr (JString ''d'')), 0, 1)])
       ''A'' (\<lambda>v. Inr ())"


text \<open>The registry that a call of \<^verbatim>\<open>getConversionPath\<close> leaves behind when it returns.\<close>

definition after_path :: "DataTypeConvertor \<Rightarrow> string \<Rightarrow> dest \<Rightarrow> DataTypeConvertor" where
  "after_path this from to =
     (case getConversionPath this from to of Some (Inr (p, this', s)) \<Rightarrow> this' | _ \<Rightarrow> this)"


section \<open>Evaluating the operations\<close>

lemmas learn_eval =
  after_learning_def learn_def empty_convertor_def new_WeightedGraph_def addVertex_def addEdge_def
  js_xor_def toInt32_def get_def inherited_def prototype_functions_def

lemmas path_eval =
  getConversionPath_def known_row_def holder_def entries_def read_def assign_def put_def chosen_def
  dijkstra_def insertNode_def getCount_def remove_def
  decreaseKey_def neighbors_of_def property_key_def search.simps backtrack.simps

section \<open>The graph that learn builds\<close>

lemma update_absent: "map_of al k = None \<Longrightarrow> AList.update k v al = al @ [(k, v)]"
  by (induction al) (auto split: if_splits)

lemma update_set_subset: "set (AList.update k v al) \<subseteq> insert (k, v) (set al)"
  by (induction al) auto

lemma update_present_keys: "map_of al k = Some u \<Longrightarrow> map fst (AList.update k v al) = map fst al"
  by (induction al) (auto split: if_splits)

lemma get_Value: "get m k = Value v \<longleftrightarrow> m k = Some v"
  by (auto simp: get_def split: option.splits)

lemma get_Undefined: "get m k = Undefined \<longleftrightarrow> m k = None \<and> inherited k = None"
  by (auto simp: get_def split: option.splits)

lemma get_Inherited: "get m k = Inherited h \<longleftrightarrow> m k = None \<and> inherited k = Some h"
  by (auto simp: get_def split: option.splits)

lemma vertices_lookup:
  assumes "graph_ok g"
  shows "map_of (vertices g) v = Some a \<longleftrightarrow> a < length (store g) \<and> node_value (store g ! a) = v"
proof -
  let ?xs = "map fst (vertices g)" and ?ys = "map snd (vertices g)"
  have z: "vertices g = zip ?xs ?ys" by (simp add: zip_map_fst_snd)
  have ys: "?ys = [0..<length (store g)]" and xs: "map node_value (store g) = ?xs"
    and d: "distinct ?xs" using assms by (auto simp: graph_ok_def)
  have len: "length ?xs = length (store g)" using xs by (metis length_map)
  show ?thesis
  proof
    assume "map_of (vertices g) v = Some a"
    then have "(v, a) \<in> set (zip ?xs ?ys)" using z map_of_SomeD by metis
    then obtain i where i: "i < length ?xs" "?xs ! i = v" "?ys ! i = a" "i < length ?ys"
      by (auto simp: in_set_zip)
    then have "a = i" using ys len by simp
    moreover have "node_value (store g ! i) = ?xs ! i" using i len xs by (metis nth_map)
    ultimately show "a < length (store g) \<and> node_value (store g ! a) = v" using i len by simp
  next
    assume h: "a < length (store g) \<and> node_value (store g ! a) = v"
    then have "?xs ! a = v" using xs by (metis nth_map)
    moreover have "?ys ! a = a" using h ys by simp
    moreover have "map_of (zip ?xs ?ys) (?xs ! a) = Some (?ys ! a)"
      by (rule map_of_zip_nth) (use d h len in auto)
    ultimately show "map_of (vertices g) v = Some a" using z by simp
  qed
qed

text \<open>The parts of \<open>graph_ok\<close>, one by one.\<close>

lemma graph_ok_keys: "graph_ok g \<Longrightarrow> map fst (adjacencyList g) = map fst (vertices g)"
  by (simp add: graph_ok_def)

lemma graph_ok_names:
  assumes "graph_ok g" "map_of (vertices g) k = Some a"
  shows "inherited k = None"
proof -
  have "(k, a) \<in> set (vertices g)" using assms(2) by (rule map_of_SomeD)
  then have "k \<in> set (map fst (vertices g))" by force
  moreover have "\<forall>k \<in> set (map fst (vertices g)). inherited k = None"
    using assms(1) unfolding graph_ok_def by blast
  ultimately show ?thesis by blast
qed

lemma graph_ok_edge:
  assumes "graph_ok g" "(k, es) \<in> set (adjacencyList g)" "e \<in> set es"
  shows "origin e = get (map_of (vertices g)) k"
    and "target e \<noteq> Undefined"
    and "target e = Value b \<Longrightarrow> b < length (store g)"
proof -
  have h: "origin e = get (map_of (vertices g)) k \<and>
        (case target e of Value b \<Rightarrow> b < length (store g) | Inherited h \<Rightarrow> True | Undefined \<Rightarrow> False)"
    using assms by (fastforce simp: graph_ok_def)
  show "origin e = get (map_of (vertices g)) k" using h by simp
  show "target e \<noteq> Undefined" using h by (auto split: slot.splits)
  show "target e = Value b \<Longrightarrow> b < length (store g)" using h by (auto split: slot.splits)
qed

lemma graph_ok_adjacency:
  assumes "graph_ok g"
  shows "(map_of (adjacencyList g) k = None) = (map_of (vertices g) k = None)"
proof -
  have "fst ` set (adjacencyList g) = fst ` set (vertices g)"
    using graph_ok_keys[OF assms] by (metis set_map)
  then show ?thesis by (simp add: map_of_eq_None_iff)
qed

lemma graph_okI:
  assumes "distinct (map fst (vertices g))"
    and "map snd (vertices g) = [0..<length (store g)]"
    and "map node_value (store g) = map fst (vertices g)"
    and "map fst (adjacencyList g) = map fst (vertices g)"
    and "\<And>k. k \<in> set (map fst (vertices g)) \<Longrightarrow> inherited k = None"
    and "\<And>k es e. (k, es) \<in> set (adjacencyList g) \<Longrightarrow> e \<in> set es \<Longrightarrow>
            origin e = get (map_of (vertices g)) k \<and> target e \<noteq> Undefined \<and>
            (\<forall>b. target e = Value b \<longrightarrow> b < length (store g))"
  shows "graph_ok g"
proof -
  have "\<forall>(k, es) \<in> set (adjacencyList g). \<forall>e \<in> set es.
        origin e = get (map_of (vertices g)) k \<and>
        (case target e of Value b \<Rightarrow> b < length (store g) | Inherited h \<Rightarrow> True | Undefined \<Rightarrow> False)"
  proof (clarify)
    fix k es e assume "(k, es) \<in> set (adjacencyList g)" "e \<in> set es"
    from assms(6)[OF this] show "origin e = get (map_of (vertices g)) k \<and>
        (case target e of Value b \<Rightarrow> b < length (store g) | Inherited h \<Rightarrow> True | Undefined \<Rightarrow> False)"
      by (cases "target e") auto
  qed
  then show ?thesis unfolding graph_ok_def using assms(1-5) by blast
qed

lemma addVertex_unchanged:
  "get (map_of (vertices g)) v \<noteq> Undefined \<Longrightarrow> addVertex g v = (g, False)"
  by (cases "get (map_of (vertices g)) v") (auto simp: addVertex_def)

lemma addVertex_new:
  assumes "graph_ok g" and u: "get (map_of (vertices g)) v = Undefined"
  shows "fst (addVertex g v) =
           g\<lparr>store := store g @ [\<lparr>key = Fin 0, node_value = v, previous = None\<rparr>],
             vertices := vertices g @ [(v, length (store g))],
             adjacencyList := adjacencyList g @ [(v, [])]\<rparr>"
proof -
  have n: "map_of (vertices g) v = None" using u by (simp add: get_Undefined)
  then have "map_of (adjacencyList g) v = None" using graph_ok_adjacency[OF assms(1)] by simp
  then show ?thesis using u n by (simp add: addVertex_def update_absent)
qed

lemma addVertex_ok:
  assumes ok: "graph_ok g"
  shows "graph_ok (fst (addVertex g v))"
proof (cases "get (map_of (vertices g)) v = Undefined")
  case False
  then show ?thesis using ok by (simp add: addVertex_unchanged)
next
  case True
  then have n: "map_of (vertices g) v = None" and i: "inherited v = None"
    by (simp_all add: get_Undefined)
  have nk: "v \<notin> fst ` set (vertices g)" using n by (simp add: map_of_eq_None_iff)
  let ?g = "g\<lparr>store := store g @ [\<lparr>key = Fin 0, node_value = v, previous = None\<rparr>],
       vertices := vertices g @ [(v, length (store g))],
       adjacencyList := adjacencyList g @ [(v, [])]\<rparr>"
  have e: "fst (addVertex g v) = ?g" using ok True by (rule addVertex_new)
  have "graph_ok ?g"
  proof (rule graph_okI)
    show "distinct (map fst (vertices ?g))" using ok nk by (simp add: graph_ok_def)
    show "map snd (vertices ?g) = [0..<length (store ?g)]" using ok by (simp add: graph_ok_def)
    show "map node_value (store ?g) = map fst (vertices ?g)" using ok by (simp add: graph_ok_def)
    show "map fst (adjacencyList ?g) = map fst (vertices ?g)" using ok by (simp add: graph_ok_def)
    show "inherited k = None" if "k \<in> set (map fst (vertices ?g))" for k
      using that ok i by (auto simp: graph_ok_def)
    show "origin e = get (map_of (vertices ?g)) k \<and> target e \<noteq> Undefined \<and>
            (\<forall>b. target e = Value b \<longrightarrow> b < length (store ?g))"
      if m: "(k, es) \<in> set (adjacencyList ?g)" and e: "e \<in> set es" for k es e
    proof -
      from m e have old: "(k, es) \<in> set (adjacencyList g)" by auto
      then have "k \<in> fst ` set (adjacencyList g)" by force
      then have "k \<in> fst ` set (vertices g)" using graph_ok_keys[OF ok] by (metis set_map)
      then have "k \<noteq> v" using nk by auto
      then have "get (map_of (vertices ?g)) k = get (map_of (vertices g)) k"
        by (auto simp: get_def map_add_def split: option.splits)
      then show ?thesis using graph_ok_edge[OF ok old e] by auto
    qed
  qed
  then show ?thesis using e by simp
qed

lemma addVertex_registered:
  assumes "graph_ok g"
  shows "get (map_of (vertices (fst (addVertex g v)))) v \<noteq> Undefined"
proof (cases "get (map_of (vertices g)) v = Undefined")
  case False
  then show ?thesis by (simp add: addVertex_unchanged)
next
  case True
  from addVertex_new[OF assms True] show ?thesis
    by (auto simp: get_def map_add_def split: option.splits)
qed

lemma addVertex_keeps:
  assumes ok: "graph_ok g" and u: "get (map_of (vertices g)) u \<noteq> Undefined"
  shows "get (map_of (vertices (fst (addVertex g v)))) u = get (map_of (vertices g)) u"
proof (cases "get (map_of (vertices g)) v = Undefined")
  case False
  then show ?thesis by (simp add: addVertex_unchanged)
next
  case True
  then have "u \<noteq> v" using u by auto
  then show ?thesis using addVertex_new[OF ok True]
    by (auto simp: get_def map_add_def split: option.splits)
qed

lemma addVertex_node_targets:
  assumes ok: "graph_ok g" and nt: "node_targets g"
  shows "node_targets (fst (addVertex g v))"
proof (cases "get (map_of (vertices g)) v = Undefined")
  case False
  then show ?thesis using nt by (simp add: addVertex_unchanged)
next
  case True
  show ?thesis using nt addVertex_new[OF ok True] by (auto simp: node_targets_def)
qed

text \<open>
  \<^verbatim>\<open>addEdge\<close> on a graph of this shape: it throws exactly when the first vertex is not
  registered, and it keeps the shape when the second vertex is registered or inherited.
\<close>

lemma addEdge_throws:
  assumes "graph_ok g" "map_of (vertices g) v1 = None"
  shows "addEdge g v1 v2 w t = Inl TypeError"
proof -
  have "map_of (adjacencyList g) v1 = None" using graph_ok_adjacency[OF assms(1)] assms(2) by simp
  then show ?thesis by (cases "inherited v1") (simp_all add: addEdge_def get_def)
qed

lemma addEdge_ok:
  assumes ok: "graph_ok g" and v1: "map_of (vertices g) v1 = Some a"
    and v2: "get (map_of (vertices g)) v2 \<noteq> Undefined"
  shows "\<exists>g' es. addEdge g v1 v2 w t = Inr g' \<and> graph_ok g' \<and> vertices g' = vertices g \<and>
           store g' = store g \<and> map_of (adjacencyList g) v1 = Some es \<and>
           adjacencyList g' = AList.update v1
              (es @ [\<lparr>target = get (map_of (vertices g)) v2, origin = Value a, weight = w, transform = t\<rparr>])
              (adjacencyList g)"
proof -
  have keys: "map fst (adjacencyList g) = map fst (vertices g)" using ok by (rule graph_ok_keys)
  obtain es where es: "map_of (adjacencyList g) v1 = Some es"
    using graph_ok_adjacency[OF ok, of v1] v1 by auto
  have o: "get (map_of (vertices g)) v1 = Value a" using v1 by (simp add: get_Value)
  let ?e = "\<lparr>target = get (map_of (vertices g)) v2, origin = Value a, weight = w, transform = t\<rparr>"
  let ?g = "g\<lparr>adjacencyList := AList.update v1 (es @ [?e]) (adjacencyList g)\<rparr>"
  have r: "addEdge g v1 v2 w t = Inr ?g" using es o by (simp add: addEdge_def get_def)
  have old: "(v1, es) \<in> set (adjacencyList g)" using es by (rule map_of_SomeD)
  have tb: "b < length (store g)" if "get (map_of (vertices g)) v2 = Value b" for b
    using that vertices_lookup[OF ok] by (simp add: get_Value)
  have "graph_ok ?g"
  proof (rule graph_okI)
    show "distinct (map fst (vertices ?g))" using ok by (simp add: graph_ok_def)
    show "map snd (vertices ?g) = [0..<length (store ?g)]" using ok by (simp add: graph_ok_def)
    show "map node_value (store ?g) = map fst (vertices ?g)" using ok by (simp add: graph_ok_def)
    show "map fst (adjacencyList ?g) = map fst (vertices ?g)"
      using keys es by (simp add: update_present_keys)
    show "inherited k = None" if "k \<in> set (map fst (vertices ?g))" for k
      using that ok by (auto simp: graph_ok_def)
    show "origin e = get (map_of (vertices ?g)) k \<and> target e \<noteq> Undefined \<and>
            (\<forall>b. target e = Value b \<longrightarrow> b < length (store ?g))"
      if m: "(k, es') \<in> set (adjacencyList ?g)" and e: "e \<in> set es'" for k es' e
    proof -
      from m have "(k, es') = (v1, es @ [?e]) \<or> (k, es') \<in> set (adjacencyList g)"
        using update_set_subset[of v1 "es @ [?e]" "adjacencyList g"] by auto
      then consider (new) "k = v1" "e = ?e" | (same) "k = v1" "e \<in> set es" | (other) "(k, es') \<in> set (adjacencyList g)"
        using e by auto
      then have "origin e = get (map_of (vertices g)) k \<and> target e \<noteq> Undefined \<and>
            (\<forall>b. target e = Value b \<longrightarrow> b < length (store g))"
      proof cases
        case new
        then show ?thesis using v2 o tb by simp
      next
        case same
        then show ?thesis using graph_ok_edge[OF ok old] by auto
      next
        case other
        then show ?thesis using graph_ok_edge[OF ok other e] by auto
      qed
      then show ?thesis by simp
    qed
  qed
  then show ?thesis using r es by simp
qed

text \<open>
  A call of \<^verbatim>\<open>learn\<close> on a registry whose graph has this shape: the shape is kept,
  whether the call throws or not; the call throws exactly when the origin type is a name
  of \<^verbatim>\<open>Object.prototype\<close>; and the new edge leads to a node unless the destination
  type is such a name.
\<close>

lemma learn_registered:
  assumes ok: "graph_ok g"
  shows "get (map_of (vertices (fst (addVertex (fst (addVertex g v1)) v2)))) v2 \<noteq> Undefined"
    and "inherited v1 = None \<Longrightarrow> \<exists>a. map_of (vertices (fst (addVertex (fst (addVertex g v1)) v2))) v1 = Some a"
    and "inherited v1 \<noteq> None \<Longrightarrow> map_of (vertices (fst (addVertex (fst (addVertex g v1)) v2))) v1 = None"
proof -
  let ?g1 = "fst (addVertex g v1)"
  let ?g2 = "fst (addVertex ?g1 v2)"
  have ok1: "graph_ok ?g1" using ok by (rule addVertex_ok)
  have ok2: "graph_ok ?g2" using ok1 by (rule addVertex_ok)
  show "get (map_of (vertices ?g2)) v2 \<noteq> Undefined" using ok1 by (rule addVertex_registered)
  show "\<exists>a. map_of (vertices ?g2) v1 = Some a" if i: "inherited v1 = None"
  proof -
    have r: "get (map_of (vertices ?g1)) v1 \<noteq> Undefined" using ok by (rule addVertex_registered)
    then have "get (map_of (vertices ?g2)) v1 = get (map_of (vertices ?g1)) v1"
      using ok1 by (simp add: addVertex_keeps)
    then have "get (map_of (vertices ?g2)) v1 \<noteq> Undefined" using r by simp
    then show ?thesis using i by (auto simp: get_def split: option.splits)
  qed
  show "map_of (vertices ?g2) v1 = None" if "inherited v1 \<noteq> None"
    using graph_ok_names[OF ok2, of v1] that by (cases "map_of (vertices ?g2) v1") auto
qed

lemma learn_graph_ok:
  assumes ok: "graph_ok (graph this)"
  shows "graph_ok (graph (snd (learn this from to callback costPower costMultiplier)))"
proof -
  let ?g1 = "fst (addVertex (graph this) from)"
  let ?g2 = "fst (addVertex ?g1 to)"
  let ?w = "js_xor ((costPower + 1) * 10) (5 + min (max costMultiplier 1) (js_xor 10 5))"
  have ok2: "graph_ok ?g2" using ok by (simp add: addVertex_ok)
  show ?thesis
  proof (cases "map_of (vertices ?g2) from")
    case None
    then have "addEdge ?g2 from to ?w callback = Inl TypeError" using ok2 by (simp add: addEdge_throws)
    then show ?thesis using ok2 by (simp add: learn_def Let_def)
  next
    case (Some a)
    from addEdge_ok[OF ok2 Some learn_registered(1)[OF ok], of ?w callback]
    obtain g' where "addEdge ?g2 from to ?w callback = Inr g'" "graph_ok g'" by blast
    then show ?thesis by (simp add: learn_def Let_def)
  qed
qed

lemma learn_fault:
  assumes ok: "graph_ok (graph this)"
  shows "fst (learn this from to callback costPower costMultiplier) =
           (if inherited from = None then None else Some TypeError)"
proof -
  let ?g1 = "fst (addVertex (graph this) from)"
  let ?g2 = "fst (addVertex ?g1 to)"
  let ?w = "js_xor ((costPower + 1) * 10) (5 + min (max costMultiplier 1) (js_xor 10 5))"
  have ok2: "graph_ok ?g2" using ok by (simp add: addVertex_ok)
  show ?thesis
  proof (cases "inherited from = None")
    case True
    from learn_registered(2)[OF ok True] obtain a where a: "map_of (vertices ?g2) from = Some a" by blast
    from addEdge_ok[OF ok2 a learn_registered(1)[OF ok], of ?w callback]
    obtain g' where "addEdge ?g2 from to ?w callback = Inr g'" by blast
    then show ?thesis using True by (simp add: learn_def Let_def)
  next
    case False
    from learn_registered(3)[OF ok False] have "map_of (vertices ?g2) from = None" .
    then have "addEdge ?g2 from to ?w callback = Inl TypeError" using ok2 by (simp add: addEdge_throws)
    then show ?thesis using False by (simp add: learn_def Let_def)
  qed
qed

lemma learn_node_targets:
  assumes ok: "graph_ok (graph this)" and nt: "node_targets (graph this)"
    and names: "inherited to \<noteq> None \<longrightarrow> inherited from \<noteq> None"
  shows "node_targets (graph (snd (learn this from to callback costPower costMultiplier)))"
proof -
  let ?g1 = "fst (addVertex (graph this) from)"
  let ?g2 = "fst (addVertex ?g1 to)"
  let ?w = "js_xor ((costPower + 1) * 10) (5 + min (max costMultiplier 1) (js_xor 10 5))"
  have ok1: "graph_ok ?g1" using ok by (simp add: addVertex_ok)
  have ok2: "graph_ok ?g2" using ok by (simp add: addVertex_ok)
  have nt2: "node_targets ?g2" using ok ok1 nt by (simp add: addVertex_node_targets)
  show ?thesis
  proof (cases "map_of (vertices ?g2) from")
    case None
    then have "addEdge ?g2 from to ?w callback = Inl TypeError" using ok2 by (simp add: addEdge_throws)
    then show ?thesis using nt2 by (simp add: learn_def Let_def)
  next
    case (Some a)
    then have "inherited from = None" using ok2 by (rule graph_ok_names[rotated])
    then have "inherited to = None" using names by auto
    then obtain b where b: "get (map_of (vertices ?g2)) to = Value b"
      using learn_registered(1)[OF ok, of "from" to] by (auto simp: get_def split: option.splits)
    from addEdge_ok[OF ok2 Some learn_registered(1)[OF ok], of ?w callback]
    obtain g' es where r: "addEdge ?g2 from to ?w callback = Inr g'"
      and adj: "adjacencyList g' = AList.update from
              (es @ [\<lparr>target = get (map_of (vertices ?g2)) to, origin = Value a, weight = ?w, transform = callback\<rparr>])
              (adjacencyList ?g2)"
      and es: "map_of (adjacencyList ?g2) from = Some es" by blast
    have old: "(from, es) \<in> set (adjacencyList ?g2)" using es by (rule map_of_SomeD)
    have "node_targets g'"
      unfolding node_targets_def
    proof (clarify)
      fix k es' e assume m: "(k, es') \<in> set (adjacencyList g')" and e: "e \<in> set es'"
      from m adj have "(k, es') = (from, es @ [\<lparr>target = get (map_of (vertices ?g2)) to, origin = Value a, weight = ?w, transform = callback\<rparr>])
          \<or> (k, es') \<in> set (adjacencyList ?g2)"
        using update_set_subset by fastforce
      then show "\<exists>b. target e = Value b"
        using e b nt2 old by (fastforce simp: node_targets_def)
    qed
    then show ?thesis using r by (simp add: learn_def Let_def)
  qed
qed

lemma learn_all_graph: "graph_ok (graph this) \<Longrightarrow> graph_ok (graph (learn_all this calls))"
proof (induction calls arbitrary: this)
  case Nil
  then show ?case by simp
next
  case (Cons c calls)
  obtain v1 v2 cb cp cm where c: "c = (v1, v2, cb, cp, cm)" by (cases c) auto
  have "graph_ok (graph (snd (learn this v1 v2 cb cp cm)))" using Cons.prems by (rule learn_graph_ok)
  then show ?case using Cons.IH c by simp
qed

lemma learn_all_node_targets:
  assumes "graph_ok (graph this)" "node_targets (graph this)"
    and "\<forall>(from, to, callback, costPower, costMultiplier) \<in> set calls.
           inherited to \<noteq> None \<longrightarrow> inherited from \<noteq> None"
  shows "node_targets (graph (learn_all this calls))"
  using assms
proof (induction calls arbitrary: this)
  case Nil
  then show ?case by simp
next
  case (Cons c calls)
  obtain v1 v2 cb cp cm where c: "c = (v1, v2, cb, cp, cm)" by (cases c) auto
  have n: "inherited v2 \<noteq> None \<longrightarrow> inherited v1 \<noteq> None" using Cons.prems(3) c by simp
  have 1: "graph_ok (graph (snd (learn this v1 v2 cb cp cm)))" using Cons.prems(1) by (rule learn_graph_ok)
  have 2: "node_targets (graph (snd (learn this v1 v2 cb cp cm)))"
    using Cons.prems(1,2) n by (rule learn_node_targets)
  show ?case using Cons.IH[OF 1 2] Cons.prems(3) c by simp
qed

lemma learn_all_faults:
  "graph_ok (graph this) \<Longrightarrow>
     learn_faults this calls =
       map (\<lambda>(from, to, callback, costPower, costMultiplier).
              if inherited from = None then None else Some TypeError) calls"
proof (induction calls arbitrary: this)
  case Nil
  then show ?case by simp
next
  case (Cons c calls)
  obtain v1 v2 cb cp cm where c: "c = (v1, v2, cb, cp, cm)" by (cases c) auto
  have 1: "graph_ok (graph (snd (learn this v1 v2 cb cp cm)))" using Cons.prems(1) by (rule learn_graph_ok)
  show ?case using Cons.IH[OF 1] learn_fault[OF Cons.prems] c by simp
qed

lemma empty_ok: "graph_ok (graph empty_convertor)"
  by (simp add: graph_ok_def empty_convertor_def new_WeightedGraph_def)

lemma empty_node_targets: "node_targets (graph empty_convertor)"
  by (simp add: node_targets_def empty_convertor_def new_WeightedGraph_def)

text \<open>
  Claim C9, as amended: after every sequence of \<^verbatim>\<open>learn\<close> calls on a fresh registry,
  the calls that throw included, in which no call joins a destination type that is a
  property name of \<^verbatim>\<open>Object.prototype\<close> to an origin type that is none, every edge
  stored in any adjacency list has an origin node and a target node, the list it lies in is
  keyed by the identifier of its origin, and both nodes are the ones that the vertex table
  holds for their identifiers: every identifier has one node, shared by all the edges that
  mention it. (A call whose origin type is such a name throws and stores no edge.)
\<close>

theorem learn_all_graph_ok:
  assumes "\<forall>(from, to, callback, costPower, costMultiplier) \<in> set calls.
             inherited to \<noteq> None \<longrightarrow> inherited from \<noteq> None"
  shows "\<forall>k es e. (k, es) \<in> set (adjacencyList (graph (after_learning calls))) \<longrightarrow> e \<in> set es \<longrightarrow>
        (\<exists>a b. origin e = Value a \<and> target e = Value b \<and>
               node_value (store (graph (after_learning calls)) ! a) = k \<and>
               map_of (vertices (graph (after_learning calls)))
                 (node_value (store (graph (after_learning calls)) ! a)) = Some a \<and>
               map_of (vertices (graph (after_learning calls)))
                 (node_value (store (graph (after_learning calls)) ! b)) = Some b)"
proof -
  let ?g = "graph (after_learning calls)"
  have ok: "graph_ok ?g" unfolding after_learning_def using empty_ok by (rule learn_all_graph)
  have nt: "node_targets ?g"
    unfolding after_learning_def using empty_ok empty_node_targets assms by (rule learn_all_node_targets)
  have "\<exists>a b. origin e = Value a \<and> target e = Value b \<and>
               node_value (store ?g ! a) = k \<and>
               map_of (vertices ?g) (node_value (store ?g ! a)) = Some a \<and>
               map_of (vertices ?g) (node_value (store ?g ! b)) = Some b"
    if m: "(k, es) \<in> set (adjacencyList ?g)" and e: "e \<in> set es" for k es e
  proof -
    have o: "origin e = get (map_of (vertices ?g)) k" using ok m e by (rule graph_ok_edge(1))
    obtain b where b: "target e = Value b" using nt m e by (fastforce simp: node_targets_def)
    have bl: "b < length (store ?g)" using graph_ok_edge(3)[OF ok m e b] .
    have "k \<in> fst ` set (adjacencyList ?g)" using m by force
    then have "k \<in> fst ` set (vertices ?g)" using graph_ok_keys[OF ok] by (metis set_map)
    then obtain a where a: "map_of (vertices ?g) k = Some a"
      by (metis domD dom_map_of_conv_image_fst)
    then have av: "a < length (store ?g) \<and> node_value (store ?g ! a) = k"
      using vertices_lookup[OF ok] by blast
    have "map_of (vertices ?g) (node_value (store ?g ! b)) = Some b"
      using vertices_lookup[OF ok] bl by blast
    then show ?thesis using o a av b by (simp add: get_def)
  qed
  then show ?thesis by blast
qed

theorem learn_all_graph_ok_witness:
  "\<exists>e a b. adjacencyList (graph (after_learning [(''A'', ''B'', (\<lambda>v. Inr v), 0, 1)])) = [(''A'', [e]), (''B'', [])] \<and>
     origin e = Value a \<and> target e = Value b \<and>
     node_value (store (graph (after_learning [(''A'', ''B'', (\<lambda>v. Inr v), 0, 1)])) ! a) = ''A'' \<and>
     map_of (vertices (graph (after_learning [(''A'', ''B'', (\<lambda>v. Inr v), 0, 1)]))) ''A'' = Some a \<and>
     map_of (vertices (graph (after_learning [(''A'', ''B'', (\<lambda>v. Inr v), 0, 1)])))
       (node_value (store (graph (after_learning [(''A'', ''B'', (\<lambda>v. Inr v), 0, 1)])) ! b)) = Some b"
proof -
  let ?calls = "[(''A'', ''B'', (\<lambda>v. Inr v), 0, 1)] :: (string \<times> string \<times> transform \<times> int \<times> int) list"
  have n: "\<forall>(from, to, callback, costPower, costMultiplier) \<in> set ?calls.
       inherited to \<noteq> None \<longrightarrow> inherited from \<noteq> None"
    by (simp add: inherited_def prototype_functions_def)
  obtain e where adj: "adjacencyList (graph (after_learning ?calls)) = [(''A'', [e]), (''B'', [])]"
    by (simp add: learn_eval)
  then have "(''A'', [e]) \<in> set (adjacencyList (graph (after_learning ?calls)))" "e \<in> set [e]" by simp_all
  with learn_all_graph_ok[OF n] adj show ?thesis by fastforce
qed

text \<open>
  Claim C9 as stated covers every destination type. After \<^verbatim>\<open>learn("A", "toString", f)\<close>
  the adjacency list of A holds an edge whose target is no node but the function
  \<^verbatim>\<open>Object.prototype.toString\<close>, and the vertex table has no entry for
  \<^verbatim>\<open>toString\<close>.
\<close>

theorem learn_inherited_destination:
  "map (\<lambda>(k, es). (k, map target es))
     (adjacencyList (graph (after_learning [(''A'', ''toString'', (\<lambda>v. Inr v), 0, 1)])))
     = [(''A'', [Inherited (PrototypeFunction ''toString'')])] \<and>
   vertices (graph (after_learning [(''A'', ''toString'', (\<lambda>v. Inr v), 0, 1)])) = [(''A'', 0)]"
  by (simp add: learn_eval)

section \<open>The search returns\<close>
























lemma graph_ok_store:
  assumes "graph_ok g" and "map node_value st = map node_value (store g)"
  shows "graph_ok (g\<lparr>store := st\<rparr>)"
proof -
  have "length st = length (store g)" using assms(2) by (rule map_eq_imp_length_eq)
  then show ?thesis using assms by (simp add: graph_ok_def cong: slot.case_cong)
qed


text \<open>
  Whatever the weights are: when a search returns, it has written only the keys and the
  \<^verbatim>\<open>_previous\<close> links of the nodes, not their identifiers.
\<close>

lemma update_values:
  assumes "a < length st \<Longrightarrow> node_value nd = node_value (st ! a)"
  shows "map node_value (st[a := nd]) = map node_value st"
proof (rule nth_equalityI)
  show "length (map node_value (st[a := nd])) = length (map node_value st)" by simp
  fix i assume "i < length (map node_value (st[a := nd]))"
  then show "map node_value (st[a := nd]) ! i = map node_value st ! i"
    using assms by (cases "i = a") simp_all
qed

lemma relax_values:
  "relax es m (st, nodes) = Inr (st', nodes') \<Longrightarrow> map node_value st' = map node_value st"
proof (induction es arbitrary: st nodes)
  case Nil
  then show ?case by simp
next
  case (Cons e es)
  show ?case
  proof (cases "target e")
    case Undefined
    then show ?thesis using Cons.prems by simp
  next
    case (Inherited h)
    then show ?thesis using Cons by (simp add: Let_def)
  next
    case (Value b)
    show ?thesis
    proof (cases "num_less (num_add (key (st ! m)) (weight e)) (key (st ! b))")
      case False
      then show ?thesis using Cons Value by (simp add: Let_def)
    next
      case True
      obtain st1 nodes1 where
        dk: "decreaseKey (st[b := (st ! b)\<lparr>previous := Some m\<rparr>], nodes) b (num_add (key (st ! m)) (weight e))
               = (st1, nodes1)" by (cases "decreaseKey (st[b := (st ! b)\<lparr>previous := Some m\<rparr>], nodes) b (num_add (key (st ! m)) (weight e))") auto
      let ?st2 = "st[b := (st ! b)\<lparr>previous := Some m\<rparr>]"
      have "map node_value ?st2 = map node_value st"
        by (rule update_values) simp
      moreover have "st1 = ?st2[b := (?st2 ! b)\<lparr>key := num_add (key (st ! m)) (weight e)\<rparr>]"
        using dk by (simp add: decreaseKey_def)
      moreover have "map node_value (?st2[b := (?st2 ! b)\<lparr>key := num_add (key (st ! m)) (weight e)\<rparr>])
                       = map node_value ?st2"
        by (rule update_values) simp
      ultimately have v1: "map node_value st1 = map node_value st" by simp
      have "relax es m (st1, nodes1) = Inr (st', nodes')"
        using Cons.prems True Value dk by (simp add: Let_def)
      from Cons.IH[OF this] show ?thesis using v1 by simp
    qed
  qed
qed

lemma search_values:
  assumes "search adj finish st nodes smallestNode = Some (Inr (st', final))"
  shows "map node_value st' = map node_value st"
proof -
  have "\<forall>st' final. y = Inr (st', final) \<longrightarrow> map node_value st' = map node_value st"
    if "search adj finish st nodes smallestNode = Some y" for y
    using that
  proof (induction adj finish st nodes smallestNode y rule: search.raw_induct[rotated 1, consumes 1])
    case (1 search adjacency finish st nodes smallestNode y)
    show ?case
    proof (cases "getCount nodes > 0")
      case False
      then show ?thesis using 1(2) by auto
    next
      case True
      show ?thesis
      proof (cases "remove st nodes")
        case (Inl e)
        then show ?thesis using 1(2) True by auto
      next
        case (Inr r)
        obtain m nodes1 where r: "r = (m, nodes1)" by (cases r) auto
        show ?thesis
        proof (cases "Some (node_value (st ! m)) = finish")
          case t: True
          then show ?thesis using 1(2) True Inr r by auto
        next
          case f: False
          show ?thesis
          proof (cases "relax (neighbors_of adjacency (node_value (st ! m))) m (st, nodes1)")
            case (Inl e)
            then show ?thesis using 1(2) True \<open>remove st nodes = Inr r\<close> r f by auto
          next
            case rx: (Inr q)
            obtain st1 nodes2 where q: "q = (st1, nodes2)" by (cases q) auto
            have v1: "map node_value st1 = map node_value st"
              using rx q by (auto dest: relax_values)
            have "search adjacency finish st1 nodes2 (Some m) = Some y"
              using 1(2) True \<open>remove st nodes = Inr r\<close> r f rx q by simp
            from 1(1)[OF this] show ?thesis using v1 by simp
          qed
        qed
      qed
    qed
  qed
  then show ?thesis using assms by blast
qed

lemma reset_values:
  "reset start vs (st, nodes) = (st', nodes') \<Longrightarrow> map node_value st' = map node_value st"
proof (induction vs arbitrary: st nodes)
  case Nil
  then show ?case by simp
next
  case (Cons v vs)
  obtain name vertex where v: "v = (name, vertex)" by (cases v) auto
  have u: "map node_value (st[vertex := (st ! vertex)\<lparr>key := k, previous := None\<rparr>]) = map node_value st" for k
    by (rule update_values) simp
  show ?case
  proof (cases "node_value (st ! vertex) = start")
    case True
    then have "reset start vs (st[vertex := (st ! vertex)\<lparr>key := Fin 0, previous := None\<rparr>], insertNode nodes vertex) = (st', nodes')"
      using Cons.prems v by simp
    from Cons.IH[OF this] show ?thesis using u by simp
  next
    case False
    then have "reset start vs (st[vertex := (st ! vertex)\<lparr>key := Infinity, previous := None\<rparr>], nodes) = (st', nodes')"
      using Cons.prems v by simp
    from Cons.IH[OF this] show ?thesis using u by simp
  qed
qed

lemma dijkstra_returns:
  assumes "dijkstra g start finish = Some (Inr (r, g'))"
  shows "\<exists>st'. g' = g\<lparr>store := st'\<rparr> \<and> map node_value st' = map node_value (store g)"
proof (cases "Some start = finish")
  case True
  then have "g' = g\<lparr>store := store g\<rparr>" using assms by (simp add: dijkstra_def)
  then show ?thesis by blast
next
  case False
  obtain st0 nodes where rs: "reset start (vertices g) (store g, []) = (st0, nodes)"
    by (cases "reset start (vertices g) (store g, [])") auto
  then have v0: "map node_value st0 = map node_value (store g)" by (rule reset_values)
  from assms False rs obtain st' final where
    sr: "search (adjacencyList g) finish st0 nodes None = Some (Inr (st', final))"
    and g': "g' = g\<lparr>store := st'\<rparr>"
    by (auto simp: dijkstra_def split: option.splits sum.splits if_splits)
  have "map node_value st' = map node_value st0" using sr by (rule search_values)
  then have "g' = g\<lparr>store := st'\<rparr> \<and> map node_value st' = map node_value (store g)"
    using g' v0 by simp
  then show ?thesis by (rule exI)
qed

lemma dijkstra_keeps_shape:
  assumes "graph_ok g" "dijkstra g start finish = Some (Inr (r, g'))"
  shows "graph_ok g'"
proof -
  from dijkstra_returns[OF assms(2)] obtain st' where
    "g' = g\<lparr>store := st'\<rparr>" "map node_value st' = map node_value (store g)" by blast
  then show ?thesis using graph_ok_store[OF assms(1)] by simp
qed

section \<open>The edge weight\<close>

text \<open>
  Claim C3 says that the weight computed by \<^verbatim>\<open>learn\<close> orders edges by cost class first:
  an edge of a higher class weighs more than any edge of a lower class. The source computes
  \<^verbatim>\<open>costPower * 10 ^ 5 + costMultiplier\<close> with \<^verbatim>\<open>^\<close> as exclusive or: an edge of class 0
  with multiplier 1 gets weight 12, an edge of class 1 with multiplier 15 gets weight 0.
\<close>

theorem learn_weight_class0_above_class1:
  "weights_of (after_learning [(''A'', ''B'', f, 0, 1), (''A'', ''B'', g, 1, 15)]) = [12, 0]"
  by (simp add: learn_eval weights_of_def)

text \<open>
  Claim C4 says that \<^verbatim>\<open>learn\<close> clamps the multiplier into the interval from 1 to 100000
  and keeps a value inside it unchanged. The bound of the source is \<^verbatim>\<open>10 ^ 5\<close>, which
  is 15: a multiplier of 100 is lowered to 15.
\<close>

theorem learn_multiplier_100_is_15:
  "learn this from to callback costPower 100 = learn this from to callback costPower 15"
  by (simp add: learn_def js_xor_def toInt32_def)

section \<open>The search\<close>

text \<open>
  Claim C1 says that a non-empty path returned for the pair A, B starts at A, ends at B and
  is contiguous. With the single conversion from A to B learnt, the path returned for the
  pair A, D (D was never registered) is the edge from A to B: it does not end at D.
\<close>

theorem getConversionPath_A_D_ends_at_B:
  "map_option (map_sum id (\<lambda>(p, this', s). map_option (endpoints (graph this')) p))
     (getConversionPath (after_learning [(''A'', ''B'', f, 0, 1)]) ''A'' (Single ''D''))
   = Some (Inr (Some [(Some ''A'', Some ''B'')]))"
  by (simp add: learn_eval path_eval endpoints_def name_of_def)

text \<open>
  Claim C2 says that for a destination that is unregistered or unreachable the search
  reports no path and \<^verbatim>\<open>convert\<close> resolves to an empty result. With conversions from A to
  B and from C to A learnt, C is unreachable from A; \<^verbatim>\<open>convert(x, A, C)\<close> runs the
  conversion from A to B and resolves to its result.
\<close>

theorem convert_A_C_runs_A_B:
  "map_option (map_sum id (\<lambda>(r, log, this'). (r, log)))
     (convert
        (after_learning
           [(''A'', ''B'', (\<lambda>v. Inr (JString ''b'')), 0, 1),
            (''C'', ''A'', (\<lambda>v. Inr (JString ''a'')), 0, 1)])
        (JString ''a'') ''A'' [''C''])
   = Some (Inr (Inr (Fulfilled (JString ''b'')), [Transformed 0 (JString ''a'')]))"
  by (simp add: learn_eval path_eval convert_def destroy_def step.simps value_of_def)

section \<open>Type inference\<close>

text \<open>
  Claim C8 says that \<^verbatim>\<open>guessType\<close> never throws and returns the lowercase node name for
  a host node. The source reads \<^verbatim>\<open>nodeName\<close> from the tag string instead of the node, so
  for every host node the call throws a \<^verbatim>\<open>TypeError\<close>.
\<close>

theorem guessType_dom_node_throws:
  "guessType (JDomNode n) = Inl TypeError"
  by simp

section \<open>Executing a path\<close>




section \<open>The cache\<close>

text \<open>The first lines of \<^verbatim>\<open>getConversionPath\<close> change nothing that the rest reads.\<close>

lemma holder_known_row: "holder (known_row this from) from = holder this from"
  by (auto simp: known_row_def holder_def get_def split: option.splits)

lemma entries_known_row: "entries (known_row this from) from = entries this from"
  by (auto simp: known_row_def entries_def holder_def get_def split: option.splits host.splits)

lemma graph_known_row: "graph (known_row this from) = graph this"
  by (auto simp: known_row_def split: slot.splits)

lemma destructors_known_row: "destructors (known_row this from) = destructors this"
  by (auto simp: known_row_def split: slot.splits)

lemma known_row_same: "known this from \<noteq> None \<or> inherited from \<noteq> None \<Longrightarrow> known_row this from = this"
  by (auto simp: known_row_def get_def split: option.splits)




lemma graph_put: "graph (put this from r) = graph this"
  by (auto simp: put_def split: option.splits host.splits)

lemma destructors_put: "destructors (put this from r) = destructors this"
  by (auto simp: put_def split: option.splits host.splits)

lemma known_row_put: "known_row (put (known_row this from) from r) from = put (known_row this from) from r"
  by (rule known_row_same)
     (auto simp: put_def holder_def known_row_def get_def split: option.splits host.splits)

lemma holder_graph [simp]: "holder (this\<lparr>graph := g\<rparr>) from = holder this from"
  by (simp add: holder_def)

lemma entries_graph [simp]: "entries (this\<lparr>graph := g\<rparr>) from = entries this from"
  by (auto simp: entries_def split: option.splits host.splits)

lemma put_graph: "put (this\<lparr>graph := g\<rparr>) from r = (put this from r)\<lparr>graph := g\<rparr>"
  by (auto simp: put_def split: option.splits host.splits)

lemma known_row_graph: "known_row (this\<lparr>graph := g\<rparr>) from = (known_row this from)\<lparr>graph := g\<rparr>"
  by (auto simp: known_row_def split: slot.splits)

text \<open>What a call with one destination does, by what the cache gives.\<close>

lemma getConversionPath_single:
  "getConversionPath this from (Single to) =
     (case read (holder this from) (entries this from) to of
        Inl e \<Rightarrow> Some (Inl e)
      | Inr (Conversion c) \<Rightarrow> Some (Inr (Some (path c), known_row this from, []))
      | Inr Truthy \<Rightarrow> Some (Inr (None, known_row this from, []))
      | Inr Falsy \<Rightarrow>
          (case dijkstra (graph this) from (Some to) of
             None \<Rightarrow> None
           | Some (Inl e) \<Rightarrow> Some (Inl e)
           | Some (Inr (r, g)) \<Rightarrow>
               (case assign (holder this from) (entries this from) to r of
                  Inl e \<Rightarrow> Some (Inl e)
                | Inr row \<Rightarrow>
                    Some (Inr (map_option path r, put ((known_row this from)\<lparr>graph := g\<rparr>) from row,
                               [(from, Some to)])))))"
  by (auto simp: getConversionPath_def chosen_def Let_def holder_known_row entries_known_row
        graph_known_row property_key_def split: sum.splits cell.splits option.splits prod.splits)






lemma known_row_after:
  "known_row (put ((known_row this from)\<lparr>graph := g\<rparr>) from row) from
     = put ((known_row this from)\<lparr>graph := g\<rparr>) from row"
  by (rule known_row_same)
     (auto simp: put_def holder_def known_row_def get_def split: option.splits host.splits)




lemma read_row: "\<exists>cell. read None own k = Inr cell"
  by (auto simp: read_def split: option.splits)

lemma assign_row: "\<exists>row. assign None own k v = Inr row"
  by (auto simp: assign_def split: option.splits)









section \<open>Choosing among candidate destinations\<close>





lemma cached_read: "cached this from t = Some c \<longleftrightarrow> read (holder this from) (entries this from) t = Inr (Conversion c)"
  by (auto simp: cached_def split: sum.splits cell.splits)




text \<open>What a call with a list of candidates does, by the result of the loop.\<close>

lemma getConversionPath_multi:
  "getConversionPath this from (Multi tos) =
     (case best_known (holder this from) (entries this from) tos
             (None, Infinity, (case tos of [] \<Rightarrow> None | t # ts \<Rightarrow> Some t)) of
        Inl e \<Rightarrow> Some (Inl e)
      | Inr (Some c, bc, sel) \<Rightarrow> Some (Inr (Some (path c), known_row this from, []))
      | Inr (None, bc, sel) \<Rightarrow>
          (case dijkstra (graph this) from sel of
             None \<Rightarrow> None
           | Some (Inl e) \<Rightarrow> Some (Inl e)
           | Some (Inr (r, g)) \<Rightarrow>
               (case assign (holder this from) (entries this from) (property_key sel) r of
                  Inl e \<Rightarrow> Some (Inl e)
                | Inr row \<Rightarrow>
                    Some (Inr (map_option path r, put ((known_row this from)\<lparr>graph := g\<rparr>) from row,
                               [(from, sel)])))))"
  by (auto simp: getConversionPath_def chosen_def Let_def holder_known_row entries_known_row
        graph_known_row split: sum.splits cell.splits option.splits prod.splits)










section \<open>Converting a type to itself\<close>

lemma dijkstra_same:
  "dijkstra g T (Some T) = Some (Inr (Some \<lparr>path = [], cost = Fin 0\<rparr>, g))"
  by (simp add: dijkstra_def)

lemma read_own_type:
  assumes "T \<noteq> ''__proto__''"
  shows "\<exists>cell. read (holder this T) (entries this T) T = Inr cell"
proof (cases "holder this T")
  case None
  then show ?thesis using read_row by simp
next
  case (Some h)
  then have i: "inherited T = Some h" by (auto simp: holder_def split: option.splits)
  then have "h \<noteq> ObjectPrototype" using assms by (auto simp: inherited_def split: if_splits)
  then obtain f where "h = PrototypeFunction f" by (cases h) auto
  then show ?thesis using Some i by (auto simp: read_def split: option.splits)
qed

lemma assign_own_type:
  assumes "T \<noteq> ''__proto__''"
  shows "\<exists>row. assign (holder this T) (entries this T) T v = Inr row"
proof (cases "holder this T")
  case None
  then show ?thesis using assign_row by simp
next
  case (Some h)
  then have i: "inherited T = Some h" by (auto simp: holder_def split: option.splits)
  then have "h \<noteq> ObjectPrototype" using assms by (auto simp: inherited_def split: if_splits)
  then obtain f where "h = PrototypeFunction f" by (cases h) auto
  then show ?thesis using Some i assms by (auto simp: assign_def)
qed

lemma getConversionPath_identity:
  assumes "T \<noteq> ''__proto__''" and "\<forall>c. cached this T T = Some c \<longrightarrow> path c = []"
  shows "\<exists>this' s. getConversionPath this T (Multi [T]) = Some (Inr (Some [], this', s)) \<and>
           graph this' = graph this \<and> destructors this' = destructors this"
proof -
  let ?h = "holder this T" and ?own = "entries this T"
  from read_own_type[OF assms(1)] obtain cell where rd: "read ?h ?own T = Inr cell" by blast
  from assign_own_type[OF assms(1)] obtain row where
    as: "assign ?h ?own T (Some \<lparr>path = [], cost = Fin 0\<rparr>) = Inr row" by blast
  have miss: ?thesis
    if "best_known ?h ?own [T] (None, Infinity, Some T) = Inr (None, Infinity, Some T)"
    using that as
    by (simp add: getConversionPath_multi dijkstra_same property_key_def graph_put destructors_put
          graph_known_row destructors_known_row)
  show ?thesis
  proof (cases cell)
    case Truthy
    then show ?thesis using rd by (intro miss) simp
  next
    case Falsy
    then show ?thesis using rd by (intro miss) simp
  next
    case (Conversion c)
    show ?thesis
    proof (cases "num_less (cost c) Infinity")
      case False
      then show ?thesis using rd Conversion by (intro miss) simp
    next
      case True
      have "cached this T T = Some c" using rd Conversion by (simp add: cached_read)
      then have "path c = []" using assms(2) by simp
      then show ?thesis using rd Conversion True
        by (simp add: getConversionPath_multi graph_known_row destructors_known_row)
    qed
  qed
qed

text \<open>
  Claim C10, as amended: for every type identifier \<open>T\<close> other than \<^verbatim>\<open>__proto__\<close>,
  registered or not, and every value \<open>x\<close> that is neither a promise nor an object with a
  method \<^verbatim>\<open>then\<close>, in a registry whose cache holds for the pair (T, T) nothing or the
  empty path, \<^verbatim>\<open>convert(x, T, T)\<close> resolves to \<open>x\<close> itself; the log of the call is
  empty, so no transform and no destructor is invoked and nothing is reported; and the call
  leaves the graph and the destructor table as they were.
\<close>

theorem convert_identity:
  assumes "T \<noteq> ''__proto__''" and "\<not> followed x"
    and "\<forall>c. cached this T T = Some c \<longrightarrow> path c = []"
  shows "\<exists>this'. convert this x T [T] = Some (Inr (Inr (Fulfilled x), [], this')) \<and>
           graph this' = graph this \<and> destructors this' = destructors this"
proof -
  from getConversionPath_identity[OF assms(1,3)] obtain this' s where
    g: "getConversionPath this T (Multi [T]) = Some (Inr (Some [], this', s))"
    and k: "graph this' = graph this" "destructors this' = destructors this" by blast
  have "Promise_resolve x = Fulfilled x" using assms(2) by (cases x) auto
  then have "step this' [] x 0 = (Inr (Fulfilled x), [])" by (subst step.simps) simp
  then have "convert this x T [T] = Some (Inr (Inr (Fulfilled x), [], this'))"
    using g by (simp add: convert_def)
  then show ?thesis using k by blast
qed

theorem convert_identity_witness:
  "destructors three_steps ''A'' \<noteq> None \<and>
   (\<exists>this'. convert three_steps (JString ''a'') ''A'' [''A'']
       = Some (Inr (Inr (Fulfilled (JString ''a'')), [], this')) \<and>
      graph this' = graph three_steps \<and> destructors this' = destructors three_steps)"
proof -
  have c: "\<forall>c. cached three_steps ''A'' ''A'' = Some c \<longrightarrow> path c = []"
    by (simp add: cached_def read_def holder_def entries_def three_steps_def learnDestroy_def learn_eval)
  have d: "destructors three_steps ''A'' \<noteq> None"
    by (simp add: three_steps_def learnDestroy_def)
  have t: "''A'' \<noteq> ''__proto__''" "\<not> followed (JString ''a'')" by simp_all
  from convert_identity[OF t c] d show ?thesis by simp
qed

text \<open>
  Claim C10 as stated covers every type, every value and every registry. For the type
  \<^verbatim>\<open>__proto__\<close> the call throws a \<^verbatim>\<open>TypeError\<close>. For a promise \<open>x\<close> the call resolves
  to what \<open>x\<close> is fulfilled with, not to \<open>x\<close>. And after
  \<^verbatim>\<open>learn("undefined", "B", f)\<close> and \<^verbatim>\<open>getConversionPath("undefined", [])\<close>, which
  stores the path to B under the name \<^verbatim>\<open>undefined\<close>, the call
  \<^verbatim>\<open>convert(x, "undefined", "undefined")\<close> runs \<open>f\<close>.
\<close>

theorem convert_same_type_throws_or_transforms:
  "convert three_steps (JString ''a'') ''__proto__'' [''__proto__''] = Some (Inl TypeError) \<and>
   map_option (map_sum id (\<lambda>(r, log, this'). (r, log)))
     (convert three_steps (JPromise (Fulfilled (JString ''v''))) ''A'' [''A''])
     = Some (Inr (Inr (Fulfilled (JString ''v'')), [])) \<and>
   map_option (map_sum id (\<lambda>(r, log, this'). (r, log)))
     (convert
        (after_path (after_learning [(''undefined'', ''B'', (\<lambda>v. Inr (JString ''b'')), 0, 1)])
           ''undefined'' (Multi []))
        (JString ''a'') ''undefined'' [''undefined''])
     = Some (Inr (Inr (Fulfilled (JString ''b'')), [Transformed 0 (JString ''a'')]))"
  by (simp add: three_steps_def learnDestroy_def after_path_def learn_eval path_eval convert_def
        destroy_def step.simps value_of_def)

section \<open>The registries that the program builds\<close>

text \<open>
  The shape \<open>graph_ok\<close> is no restriction on the registry: every registry that the
  program can build has it, with any arguments of the calls and whatever the weights are.
\<close>

lemma new_DataTypeConvertor_returns:
  "learn_faults empty_convertor (builtin_conversions builtin) = [None, None, None, None, None, None]"
  by (subst learn_all_faults[OF empty_ok])
     (simp add: builtin_conversions_def inherited_def prototype_functions_def)

lemma new_DataTypeConvertor_graph_ok: "graph_ok (graph (new_DataTypeConvertor builtin))"
  unfolding new_DataTypeConvertor_def using empty_ok by (rule learn_all_graph)

lemma learnDestroy_graph_ok: "graph_ok (graph this) \<Longrightarrow> graph_ok (graph (learnDestroy this ty callback))"
  by (simp add: learnDestroy_def)

lemma getConversionPath_graph:
  assumes "getConversionPath this from to = Some (Inr (p, this', s))"
  shows "graph this' = graph this \<or>
         (\<exists>finish r. dijkstra (graph this) from finish = Some (Inr (r, graph this')))"
proof (cases to)
  case (Single t)
  then show ?thesis using assms
    by (auto simp: getConversionPath_single graph_put graph_known_row
             split: sum.splits cell.splits option.splits)
next
  case (Multi tos)
  then show ?thesis using assms
    by (auto simp: getConversionPath_multi graph_put graph_known_row
             split: sum.splits option.splits prod.splits)
qed

lemma getConversionPath_graph_ok:
  assumes ok: "graph_ok (graph this)" and r: "getConversionPath this from to = Some (Inr (p, this', s))"
  shows "graph_ok (graph this')"
  using getConversionPath_graph[OF r] ok by (auto dest: dijkstra_keeps_shape)

lemma convert_graph_ok:
  assumes ok: "graph_ok (graph this)" and r: "convert this x from to = Some (Inr (res, log, this'))"
  shows "graph_ok (graph this')"
proof -
  from r obtain p s where "getConversionPath this from (Multi to) = Some (Inr (p, this', s))"
    by (auto simp: convert_def split: option.splits sum.splits prod.splits)
  with ok show ?thesis by (rule getConversionPath_graph_ok)
qed

lemma learn_all_registry: "registry this \<Longrightarrow> registry (learn_all this calls)"
proof (induction calls arbitrary: this)
  case Nil
  then show ?case by simp
next
  case (Cons c calls)
  obtain v1 v2 cb cp cm where c: "c = (v1, v2, cb, cp, cm)" by (cases c) auto
  have "registry (snd (learn this v1 v2 cb cp cm))" using Cons.prems by (rule registry_learn)
  then show ?case using Cons.IH c by simp
qed

lemma new_DataTypeConvertor_registry: "registry (new_DataTypeConvertor builtin)"
  unfolding new_DataTypeConvertor_def using registry_empty by (rule learn_all_registry)

lemma registry_graph_ok: "registry this \<Longrightarrow> graph_ok (graph this)"
proof (induction rule: registry.induct)
  case registry_empty
  then show ?case by (rule empty_ok)
next
  case (registry_learn this "from" to callback costPower costMultiplier)
  then show ?case by (simp add: learn_graph_ok)
next
  case (registry_learnDestroy this ty callback)
  then show ?case by (simp add: learnDestroy_graph_ok)
next
  case (registry_getConversionPath this "from" to p this' s)
  then show ?case by (simp add: getConversionPath_graph_ok)
next
  case (registry_convert this x "from" tos r log this')
  then show ?case by (simp add: convert_graph_ok)
qed

text \<open>
  \<^verbatim>\<open>learn\<close> with a cost class from 0 to 7 gives a weight that is not negative: the
  exclusive or of two numbers that are not negative. A search changes no weight.
\<close>

lemma learn_weight_nonneg:
  assumes "0 \<le> costPower" and "costPower \<le> 7"
  shows "0 \<le> js_xor ((costPower + 1) * 10) (5 + min (max costMultiplier 1) (js_xor 10 5))"
proof -
  let ?a = "(costPower + 1) * 10" and ?b = "5 + min (max costMultiplier 1) (js_xor 10 5)"
  have x: "js_xor 10 5 = 15" by (simp add: js_xor_def toInt32_def)
  have a: "0 \<le> ?a" "?a < 2 ^ 31" using assms by auto
  have b: "0 \<le> ?b" "?b < 2 ^ 31" unfolding x by auto
  have "toInt32 ?a = ?a" unfolding toInt32_def
    by (rule signed_take_bit_int_eq_self) (use a in auto)
  moreover have "toInt32 ?b = ?b" unfolding toInt32_def
    by (rule signed_take_bit_int_eq_self) (use b in auto)
  ultimately show ?thesis using a b by (simp add: js_xor_def)
qed

lemma addVertex_nonneg: "nonneg_weights g \<Longrightarrow> nonneg_weights (fst (addVertex g v))"
proof -
  assume n: "nonneg_weights g"
  have "set (AList.update v [] (adjacencyList g)) \<subseteq> insert (v, []) (set (adjacencyList g))"
    by (rule update_set_subset)
  then show ?thesis using n by (fastforce simp: nonneg_weights_def addVertex_def split: slot.splits)
qed

lemma addEdge_nonneg:
  assumes n: "nonneg_weights g" and w: "0 \<le> w" and r: "addEdge g v1 v2 w t = Inr g'"
  shows "nonneg_weights g'"
proof -
  let ?e = "\<lparr>target = get (map_of (vertices g)) v2, origin = get (map_of (vertices g)) v1,
             weight = w, transform = t\<rparr>"
  from r obtain es where es: "map_of (adjacencyList g) v1 = Some es"
    and g': "g' = g\<lparr>adjacencyList := AList.update v1 (es @ [?e]) (adjacencyList g)\<rparr>"
    by (auto simp: addEdge_def get_def split: option.splits slot.splits)
  have old: "(v1, es) \<in> set (adjacencyList g)" using es by (rule map_of_SomeD)
  have sub: "set (AList.update v1 (es @ [?e]) (adjacencyList g)) \<subseteq> insert (v1, es @ [?e]) (set (adjacencyList g))"
    by (rule update_set_subset)
  have "\<forall>e \<in> set (es @ [?e]). 0 \<le> weight e" using n old w by (fastforce simp: nonneg_weights_def)
  then show ?thesis unfolding g' using n sub by (fastforce simp: nonneg_weights_def)
qed

lemma learn_nonneg:
  assumes nn: "nonneg_weights (graph this)" and "0 \<le> costPower" and "costPower \<le> 7"
  shows "nonneg_weights (graph (snd (learn this from to callback costPower costMultiplier)))"
proof -
  let ?g2 = "fst (addVertex (fst (addVertex (graph this) from)) to)"
  let ?w = "js_xor ((costPower + 1) * 10) (5 + min (max costMultiplier 1) (js_xor 10 5))"
  have n2: "nonneg_weights ?g2" using nn by (simp add: addVertex_nonneg)
  show ?thesis
  proof (cases "addEdge ?g2 from to ?w callback")
    case (Inl e)
    then show ?thesis using n2 by (simp add: learn_def Let_def)
  next
    case (Inr g3)
    have "nonneg_weights g3" using n2 learn_weight_nonneg[OF assms(2,3)] Inr by (rule addEdge_nonneg)
    then show ?thesis using Inr by (simp add: learn_def Let_def)
  qed
qed

lemma learn_all_nonneg:
  "nonneg_weights (graph this) \<Longrightarrow> \<forall>(v1, v2, cb, cp, cm) \<in> set calls. 0 \<le> cp \<and> cp \<le> 7 \<Longrightarrow>
   nonneg_weights (graph (learn_all this calls))"
proof (induction calls arbitrary: this)
  case Nil
  then show ?case by simp
next
  case (Cons c calls)
  obtain v1 v2 cb cp cm where c: "c = (v1, v2, cb, cp, cm)" by (cases c) auto
  then have r: "0 \<le> cp" "cp \<le> 7" using Cons.prems(2) by auto
  have 1: "nonneg_weights (graph (snd (learn this v1 v2 cb cp cm)))"
    using Cons.prems(1) r by (rule learn_nonneg)
  have "\<forall>(v1, v2, cb, cp, cm) \<in> set calls. 0 \<le> cp \<and> cp \<le> 7" using Cons.prems(2) by simp
  from Cons.IH[OF 1 this] show ?case using c by simp
qed

lemma new_DataTypeConvertor_nonneg: "nonneg_weights (graph (new_DataTypeConvertor builtin))"
  unfolding new_DataTypeConvertor_def
  by (rule learn_all_nonneg)
     (simp_all add: nonneg_weights_def empty_convertor_def new_WeightedGraph_def builtin_conversions_def)

lemma getConversionPath_nonneg:
  assumes nn: "nonneg_weights (graph this)" and r: "getConversionPath this from to = Some (Inr (p, this', s))"
  shows "nonneg_weights (graph this')"
proof -
  from getConversionPath_graph[OF r] show ?thesis
  proof
    assume "graph this' = graph this"
    then show ?thesis using nn by simp
  next
    assume "\<exists>finish r. dijkstra (graph this) from finish = Some (Inr (r, graph this'))"
    then obtain finish r where "dijkstra (graph this) from finish = Some (Inr (r, graph this'))" by blast
    from dijkstra_returns[OF this] obtain st' where "graph this' = (graph this)\<lparr>store := st'\<rparr>" by blast
    then show ?thesis using nn by (simp add: nonneg_weights_def)
  qed
qed

end
